theory Spec2Isabelle
  imports Complex_Main "HOL-Library.Word" "HOL-Library.Sublist"
begin

section \<open>Registering Adobe Analytics data feed files in the Glue Data Catalog\<close>

text \<open>
  A shallow embedding of \<^verbatim>\<open>src/main/python/lambda_handler.py\<close>.

  The program talks to two services through boto3 clients (Glue and S3) and keeps no state
  of its own. A computation is therefore a function of the state \<open>'s\<close> of the outside
  world that returns a result and the next state; a raised exception is the result
  \<open>Inl e\<close>. The Glue client is a record of its six methods used here, so that the
  functions of the source can be run against any behaviour of the service: a sequential
  catalogue, a catalogue that other reconcilers write to between two calls, a service that
  denies access. The \<^verbatim>\<open>print\<close> calls of the source write to the log only
  and are left out.

  A Python \<^verbatim>\<open>str\<close> is a \<open>string\<close>; a character stands for the code point
  of its number, so the model covers text whose code points are below 256.
\<close>

subsection \<open>Exceptions and computations\<close>

text \<open>
  The exceptions a run can end with: the errors of the Data Catalog service (the source
  tells \<open>EntityNotFoundException\<close> from all others), the error of the object store for
  a missing object, the errors of decompression and decoding, Python's
  \<^verbatim>\<open>KeyError\<close>, and \<open>ClientError\<close> with its code for any other error of a
  service.
\<close>

datatype exn =
    EntityNotFoundException
  | AlreadyExistsException
  | AccessDeniedException
  | InternalServiceException
  | InvalidInputException
  | NoSuchKey
  | BadGzipFile
  | UnicodeDecodeError
  | KeyError string
  | ClientError string

type_synonym ('s, 'a) io = "'s \<Rightarrow> (exn + 'a) \<times> 's"

definition io_return :: "'a \<Rightarrow> ('s, 'a) io" where
  "io_return x = (\<lambda>s. (Inr x, s))"

text \<open>Sequencing of two statements: an exception of the first ends the computation.\<close>

definition io_bind :: "('s, 'a) io \<Rightarrow> ('a \<Rightarrow> ('s, 'b) io) \<Rightarrow> ('s, 'b) io" where
  "io_bind m f = (\<lambda>s. case m s of (Inl e, s') \<Rightarrow> (Inl e, s') | (Inr x, s') \<Rightarrow> f x s')"

subsection \<open>The dictionaries sent to the Data Catalog\<close>

text \<open>
  Each dictionary literal of the source is a record with one field per key. A parameter
  dictionary (\<^verbatim>\<open>{}\<close> or \<^verbatim>\<open>{"separatorChar": "\t"}\<close>) is an
  association list.
\<close>

record column =
  col_Type :: string
  col_Name :: string

record serde_info =
  serde_SerializationLibrary :: string
  serde_Parameters :: "(string \<times> string) list"

record storage_desc =
  sd_Columns :: "column list"
  sd_Location :: string
  sd_InputFormat :: string
  sd_OutputFormat :: string
  sd_SerdeInfo :: serde_info
  sd_BucketColumns :: "string list"
  sd_Parameters :: "(string \<times> string) list"

record table_input =
  tbl_Name :: string
  tbl_StorageDescriptor :: storage_desc
  tbl_PartitionKeys :: "column list"
  tbl_TableType :: string
  tbl_Parameters :: "(string \<times> string) list"
  tbl_LastAccessTime :: real

record partition_input =
  part_Values :: "string list"
  part_StorageDescriptor :: storage_desc
  part_Parameters :: "(string \<times> string) list"

subsection \<open>The clients and the library\<close>

text \<open>
  The methods of the Glue client that the source calls. The source ignores what a call
  returns, so a call either returns or raises.
\<close>

record 's glue_client =
  get_database :: "string \<Rightarrow> ('s, unit) io"
  create_database :: "string \<Rightarrow> ('s, unit) io"
  get_table :: "string \<Rightarrow> string \<Rightarrow> ('s, unit) io"
  create_table :: "string \<Rightarrow> table_input \<Rightarrow> ('s, unit) io"
  get_partition :: "string \<Rightarrow> string \<Rightarrow> string list \<Rightarrow> ('s, unit) io"
  create_partition :: "string \<Rightarrow> string \<Rightarrow> partition_input \<Rightarrow> ('s, unit) io"

type_synonym bytes = "8 word list"

record url =
  url_netloc :: string
  url_path :: string

text \<open>
  What the source takes from its surroundings: the process environment, boto3's two client
  constructors (the S3 client is reduced to \<^verbatim>\<open>get_object\<close> followed by reading
  the body), and the library functions \<^verbatim>\<open>urlparse\<close>, gzip decompression,
  UTF-8 decoding and \<^verbatim>\<open>time.time\<close>. They are parameters of the model: the
  theorems hold for each of their behaviours.
\<close>

record 's platform =
  environ :: "string \<rightharpoonup> string"
  boto3_client_glue :: "string \<Rightarrow> 's glue_client"
  s3_get_object :: "string \<Rightarrow> string \<Rightarrow> ('s, bytes) io"
  urlparse :: "string \<Rightarrow> url"
  gunzip :: "bytes \<Rightarrow> exn + bytes"
  utf8_decode :: "bytes \<Rightarrow> exn + string"
  time_time :: "'s \<Rightarrow> real"

subsection \<open>Python's string functions\<close>

text \<open>\<^verbatim>\<open>str.isspace\<close> on one character, for the code points below 256.\<close>

definition py_isspace :: "char \<Rightarrow> bool" where
  "py_isspace c = ((of_char c :: nat) \<in> {9, 10, 11, 12, 13, 28, 29, 30, 31, 32, 133, 160})"

definition py_lstrip :: "(char \<Rightarrow> bool) \<Rightarrow> string \<Rightarrow> string" where
  "py_lstrip p s = dropWhile p s"

definition py_rstrip :: "(char \<Rightarrow> bool) \<Rightarrow> string \<Rightarrow> string" where
  "py_rstrip p s = rev (dropWhile p (rev s))"

text \<open>\<^verbatim>\<open>s.strip()\<close>: whitespace is removed at both ends.\<close>

definition py_strip :: "string \<Rightarrow> string" where
  "py_strip s = py_rstrip py_isspace (py_lstrip py_isspace s)"

text \<open>\<^verbatim>\<open>s.split(sep)\<close> for a separator of one character.\<close>

fun py_split :: "char \<Rightarrow> string \<Rightarrow> string list" where
  "py_split sep [] = [[]]"
| "py_split sep (c # cs) =
     (if c = sep then [] # py_split sep cs
      else (case py_split sep cs of
              [] \<Rightarrow> [[c]]
            | w # ws \<Rightarrow> (c # w) # ws))"

text \<open>\<^verbatim>\<open>os.path.join\<close> of posixpath: one step of its loop, and the loop.\<close>

definition join_step :: "string \<Rightarrow> string \<Rightarrow> string" where
  "join_step path b =
     (if b \<noteq> [] \<and> hd b = CHR ''/'' then b
      else if path = [] \<or> last path = CHR ''/'' then path @ b
      else path @ ''/'' @ b)"

definition os_path_join :: "string \<Rightarrow> string list \<Rightarrow> string" where
  "os_path_join a p = foldl join_step a p"

subsection \<open>The functions of the source\<close>

definition get_s3_file :: "'s platform \<Rightarrow> string \<Rightarrow> ('s, bytes) io" where
  "get_s3_file P s3_uri =
     (let url_object = urlparse P s3_uri;
          bucket = url_netloc url_object;
          key = py_lstrip (\<lambda>c. c = CHR ''/'') (url_path url_object)
      in s3_get_object P bucket key)"

definition create_db :: "'s glue_client \<Rightarrow> string \<Rightarrow> ('s, unit) io" where
  "create_db glue_client database_name =
     (\<lambda>s. case get_database glue_client database_name s of
             (Inr u, s') \<Rightarrow> (Inr (), s')
           | (Inl e, s') \<Rightarrow>
               if e = EntityNotFoundException
               then create_database glue_client database_name s'
               else (Inl e, s'))"

definition get_headers :: "'s platform \<Rightarrow> string \<Rightarrow> string \<Rightarrow> ('s, string list) io" where
  "get_headers P s3_report_base partition_date =
     (let header_file =
            os_path_join s3_report_base
              [''rawtsv'', ''column_headers'', ''dt='' @ partition_date,
               ''column_headers.tsv.gz'']
      in io_bind (get_s3_file P header_file) (\<lambda>body s.
           case gunzip P body of
             Inl e \<Rightarrow> (Inl e, s)
           | Inr raw \<Rightarrow>
               (case utf8_decode P raw of
                  Inl e \<Rightarrow> (Inl e, s)
                | Inr got_text \<Rightarrow> (Inr (py_split (CHR 0x09) (py_strip got_text)), s))))"

definition storage_descriptor :: "column list \<Rightarrow> string \<Rightarrow> storage_desc" where
  "storage_descriptor columns location =
     \<lparr> sd_Columns = columns,
       sd_Location = location,
       sd_InputFormat = ''org.apache.hadoop.mapred.TextInputFormat'',
       sd_OutputFormat = ''org.apache.hadoop.hive.ql.io.HiveIgnoreKeyTextOutputFormat'',
       sd_SerdeInfo =
         \<lparr> serde_SerializationLibrary = ''org.apache.hadoop.hive.serde2.OpenCSVSerde'',
           serde_Parameters = [(''separatorChar'', [CHR 0x09])] \<rparr>,
       sd_BucketColumns = [],
       sd_Parameters = [] \<rparr>"

definition does_table_exist :: "'s glue_client \<Rightarrow> string \<Rightarrow> string \<Rightarrow> ('s, bool) io" where
  "does_table_exist glue_client database table =
     (\<lambda>s. case get_table glue_client database table s of
             (Inr u, s') \<Rightarrow> (Inr True, s')
           | (Inl e, s') \<Rightarrow>
               if e = EntityNotFoundException then (Inr False, s') else (Inl e, s'))"

definition does_partition_exist ::
  "'s glue_client \<Rightarrow> string \<Rightarrow> string \<Rightarrow> string list \<Rightarrow> ('s, bool) io" where
  "does_partition_exist glue_client database table part_values =
     (\<lambda>s. case get_partition glue_client database table part_values s of
             (Inr u, s') \<Rightarrow> (Inr True, s')
           | (Inl e, s') \<Rightarrow>
               if e = EntityNotFoundException then (Inr False, s') else (Inl e, s'))"

definition create_glue_table ::
  "'s platform \<Rightarrow> 's glue_client \<Rightarrow> string \<Rightarrow> string \<Rightarrow> string \<Rightarrow> ('s, unit) io" where
  "create_glue_table P glue_client database_name s3_report_base partition_date =
     io_bind (does_table_exist glue_client database_name ''hit_data'') (\<lambda>found.
       if found then io_return ()
       else io_bind (get_headers P s3_report_base partition_date) (\<lambda>headers s.
         create_table glue_client database_name
           \<lparr> tbl_Name = ''hit_data'',
             tbl_StorageDescriptor =
               storage_descriptor
                 (map (\<lambda>name. \<lparr> col_Type = ''string'', col_Name = name \<rparr>) headers)
                 (s3_report_base @ ''/rawtsv/hit_data/''),
             tbl_PartitionKeys = [\<lparr> col_Type = ''string'', col_Name = ''dt'' \<rparr>],
             tbl_TableType = ''EXTERNAL_TABLE'',
             tbl_Parameters = [],
             tbl_LastAccessTime = time_time P s \<rparr> s))"

definition add_hitdata_partition ::
  "'s platform \<Rightarrow> 's glue_client \<Rightarrow> string \<Rightarrow> string \<Rightarrow> string \<Rightarrow> ('s, unit) io" where
  "add_hitdata_partition P glue_client database_name s3_report_base partition_date =
     io_bind (does_partition_exist glue_client database_name ''hit_data'' [partition_date])
       (\<lambda>found.
         if found then io_return ()
         else io_bind (get_headers P s3_report_base partition_date) (\<lambda>headers.
           create_partition glue_client database_name ''hit_data''
             \<lparr> part_Values = [partition_date],
               part_StorageDescriptor =
                 storage_descriptor
                   (map (\<lambda>name. \<lparr> col_Type = ''string'', col_Name = name \<rparr>) headers)
                   (s3_report_base @ ''/rawtsv/hit_data/dt='' @ partition_date @ ''/''),
               part_Parameters = [] \<rparr>))"

definition generic_lookup_types :: "string list" where
  "generic_lookup_types =
     [''browser'', ''browser_type'', ''color_depth'', ''connection_type'', ''country'',
      ''javascript_version'', ''languages'', ''operating_systems'', ''plugins'',
      ''resolution'', ''referrer_type'', ''search_engines'']"

text \<open>The body of the \<^verbatim>\<open>for\<close> loop of \<^verbatim>\<open>create_lookup_tables\<close>, for one name.\<close>

definition create_lookup_table ::
  "'s platform \<Rightarrow> 's glue_client \<Rightarrow> string \<Rightarrow> string \<Rightarrow> string \<Rightarrow> ('s, unit) io" where
  "create_lookup_table P glue_client database_name s3_lookup_uri lookup_name =
     io_bind (does_table_exist glue_client database_name lookup_name) (\<lambda>found.
       if found then io_return ()
       else (\<lambda>s.
         create_table glue_client database_name
           \<lparr> tbl_Name = lookup_name,
             tbl_StorageDescriptor =
               storage_descriptor
                 [\<lparr> col_Type = ''string'', col_Name = ''id'' \<rparr>,
                  \<lparr> col_Type = ''string'', col_Name = ''value'' \<rparr>]
                 (s3_lookup_uri @ ''/'' @ lookup_name @ ''/''),
             tbl_PartitionKeys = [],
             tbl_TableType = ''EXTERNAL_TABLE'',
             tbl_Parameters = [],
             tbl_LastAccessTime = time_time P s \<rparr> s))"

fun for_lookup_names ::
  "'s platform \<Rightarrow> 's glue_client \<Rightarrow> string \<Rightarrow> string \<Rightarrow> string list \<Rightarrow> ('s, unit) io" where
  "for_lookup_names P glue_client database_name s3_lookup_uri [] = io_return ()"
| "for_lookup_names P glue_client database_name s3_lookup_uri (lookup_name # rest) =
     io_bind (create_lookup_table P glue_client database_name s3_lookup_uri lookup_name)
       (\<lambda>u. for_lookup_names P glue_client database_name s3_lookup_uri rest)"

definition create_lookup_tables ::
  "'s platform \<Rightarrow> 's glue_client \<Rightarrow> string \<Rightarrow> string \<Rightarrow> ('s, unit) io" where
  "create_lookup_tables P glue_client database_name s3_lookup_uri =
     for_lookup_names P glue_client database_name s3_lookup_uri generic_lookup_types"

definition create_glue_client :: "'s platform \<Rightarrow> exn + 's glue_client" where
  "create_glue_client P =
     (case environ P ''AWS_REGION'' of
        None \<Rightarrow> Inl (KeyError ''AWS_REGION'')
      | Some current_region \<Rightarrow> Inr (boto3_client_glue P current_region))"

text \<open>
  The event is a dictionary of strings; a key that is missing raises
  \<^verbatim>\<open>KeyError\<close>, as does a missing environment variable. The context argument
  of the source is not used.
\<close>

definition handler :: "'s platform \<Rightarrow> (string \<rightharpoonup> string) \<Rightarrow> ('s, unit) io" where
  "handler P event =
     (\<lambda>s. case event ''reportBase'' of
        None \<Rightarrow> (Inl (KeyError ''reportBase''), s)
      | Some report_base \<Rightarrow>
     (case event ''lookupURI'' of
        None \<Rightarrow> (Inl (KeyError ''lookupURI''), s)
      | Some lookup_uri \<Rightarrow>
     (case event ''reportDate'' of
        None \<Rightarrow> (Inl (KeyError ''reportDate''), s)
      | Some partition_date \<Rightarrow>
     (case environ P ''DB_NAME'' of
        None \<Rightarrow> (Inl (KeyError ''DB_NAME''), s)
      | Some glue_database \<Rightarrow>
     (case create_glue_client P of
        Inl e \<Rightarrow> (Inl e, s)
      | Inr glue_client \<Rightarrow>
          (let s3_report_base = py_rstrip (\<lambda>c. c = CHR ''/'') report_base;
               lookup_location = py_rstrip (\<lambda>c. c = CHR ''/'') lookup_uri
           in io_bind (create_db glue_client glue_database) (\<lambda>u1.
              io_bind (create_glue_table P glue_client glue_database s3_report_base
                         partition_date) (\<lambda>u2.
              io_bind (create_lookup_tables P glue_client glue_database lookup_location)
                (\<lambda>u3.
              add_hitdata_partition P glue_client glue_database s3_report_base
                partition_date)))) s)))))"

subsection \<open>Recording the calls of a run\<close>

text \<open>
  The calls a run makes to the Data Catalog, with what each call answered, are observed
  by running the source against a client that writes each call down before it hands the
  answer on. The functions of the source are not changed for that.
\<close>

datatype glue_call =
    GetDatabase string
  | CreateDatabase string
  | GetTable string string
  | CreateTable string table_input
  | GetPartition string string "string list"
  | CreatePartition string string partition_input

type_synonym glue_event = "glue_call \<times> (exn + unit)"

definition log_call :: "glue_call \<Rightarrow> ('s, unit) io \<Rightarrow> ('s \<times> glue_event list, unit) io" where
  "log_call k m = (\<lambda>(s, tr). case m s of (r, s') \<Rightarrow> (r, (s', tr @ [(k, r)])))"

definition traced :: "'s glue_client \<Rightarrow> ('s \<times> glue_event list) glue_client" where
  "traced c =
     \<lparr> get_database = (\<lambda>n. log_call (GetDatabase n) (get_database c n)),
       create_database = (\<lambda>n. log_call (CreateDatabase n) (create_database c n)),
       get_table = (\<lambda>d t. log_call (GetTable d t) (get_table c d t)),
       create_table = (\<lambda>d ti. log_call (CreateTable d ti) (create_table c d ti)),
       get_partition = (\<lambda>d t vs. log_call (GetPartition d t vs) (get_partition c d t vs)),
       create_partition =
         (\<lambda>d t inp. log_call (CreatePartition d t inp) (create_partition c d t inp)) \<rparr>"

definition traced_platform :: "'s platform \<Rightarrow> ('s \<times> glue_event list) platform" where
  "traced_platform P =
     \<lparr> environ = environ P,
       boto3_client_glue = (\<lambda>region. traced (boto3_client_glue P region)),
       s3_get_object =
         (\<lambda>bucket key (s, tr). case s3_get_object P bucket key s of (r, s') \<Rightarrow> (r, (s', tr))),
       urlparse = urlparse P,
       gunzip = gunzip P,
       utf8_decode = utf8_decode P,
       time_time = (\<lambda>(s, tr). time_time P s) \<rparr>"

text \<open>
  \<open>follows m' m\<close>: the computation \<open>m'\<close> on a state with a record does to the state
  what \<open>m\<close> does, and returns what \<open>m\<close> returns.
\<close>

definition follows :: "('s \<times> glue_event list, 'a) io \<Rightarrow> ('s, 'a) io \<Rightarrow> bool" where
  "follows m' m =
     (\<forall>s tr. fst (m' (s, tr)) = fst (m s) \<and> fst (snd (m' (s, tr))) = snd (m s))"

fun is_create :: "glue_call \<Rightarrow> bool" where
  "is_create (CreateDatabase n) = True"
| "is_create (CreateTable d ti) = True"
| "is_create (CreatePartition d t inp) = True"
| "is_create k = False"

text \<open>The existence check that asks for the object a create call makes.\<close>

fun probe_of :: "glue_call \<Rightarrow> glue_call" where
  "probe_of (CreateDatabase n) = GetDatabase n"
| "probe_of (CreateTable d ti) = GetTable d (tbl_Name ti)"
| "probe_of (CreatePartition d t inp) = GetPartition d t (part_Values inp)"
| "probe_of k = k"

text \<open>
  The step of the handler a call belongs to: 1 the database, 2 the table
  \<^verbatim>\<open>hit_data\<close>, 3 the lookup tables, 4 the partition.
\<close>

fun step_of :: "glue_call \<Rightarrow> nat" where
  "step_of (GetDatabase n) = 1"
| "step_of (CreateDatabase n) = 1"
| "step_of (GetTable d t) = (if t = ''hit_data'' then 2 else 3)"
| "step_of (CreateTable d ti) = (if tbl_Name ti = ''hit_data'' then 2 else 3)"
| "step_of (GetPartition d t vs) = 4"
| "step_of (CreatePartition d t inp) = 4"

subsection \<open>A sequential Data Catalog and object store\<close>

text \<open>
  Modelled from the spec: the Data Catalog service and the object store behind the boto3
  clients are not part of the repository. The catalogue holds databases, tables and
  partitions in the order of their creation. A lookup of an object that is not there
  raises the not-found error; a create of an object that is there raises the
  already-exists error; a table needs its database and a partition needs its table (the
  spec: the catalog service enforces these as referential prerequisites). Nothing else
  writes to this catalogue and no call fails for another reason.
\<close>

record world =
  databases :: "string list"
  tables :: "((string \<times> string) \<times> table_input) list"
  partitions :: "((string \<times> string \<times> string list) \<times> partition_input) list"
  objects :: "((string \<times> string) \<times> bytes) list"

definition has_database :: "world \<Rightarrow> string \<Rightarrow> bool" where
  "has_database w d = (d \<in> set (databases w))"

definition has_table :: "world \<Rightarrow> string \<Rightarrow> string \<Rightarrow> bool" where
  "has_table w d t = ((d, t) \<in> set (map fst (tables w)))"

definition has_partition :: "world \<Rightarrow> string \<Rightarrow> string \<Rightarrow> string list \<Rightarrow> bool" where
  "has_partition w d t vs = ((d, t, vs) \<in> set (map fst (partitions w)))"

definition glue_catalog :: "world glue_client" where
  "glue_catalog =
     \<lparr> get_database = (\<lambda>n w.
         if has_database w n then (Inr (), w) else (Inl EntityNotFoundException, w)),
       create_database = (\<lambda>n w.
         if has_database w n then (Inl AlreadyExistsException, w)
         else (Inr (), w\<lparr>databases := databases w @ [n]\<rparr>)),
       get_table = (\<lambda>d t w.
         if has_table w d t then (Inr (), w) else (Inl EntityNotFoundException, w)),
       create_table = (\<lambda>d ti w.
         if \<not> has_database w d then (Inl EntityNotFoundException, w)
         else if has_table w d (tbl_Name ti) then (Inl AlreadyExistsException, w)
         else (Inr (), w\<lparr>tables := tables w @ [((d, tbl_Name ti), ti)]\<rparr>)),
       get_partition = (\<lambda>d t vs w.
         if has_partition w d t vs then (Inr (), w) else (Inl EntityNotFoundException, w)),
       create_partition = (\<lambda>d t inp w.
         if \<not> has_table w d t then (Inl EntityNotFoundException, w)
         else if has_partition w d t (part_Values inp) then (Inl AlreadyExistsException, w)
         else (Inr (), w\<lparr>partitions := partitions w @ [((d, t, part_Values inp), inp)]\<rparr>)) \<rparr>"

definition s3_store :: "string \<Rightarrow> string \<Rightarrow> (world, bytes) io" where
  "s3_store bucket key =
     (\<lambda>w. case map_of (objects w) (bucket, key) of
             None \<Rightarrow> (Inl NoSuchKey, w)
           | Some body \<Rightarrow> (Inr body, w))"

text \<open>
  A platform whose two services are the sequential catalogue and the object store; the
  environment, the library functions and the clock stay those of \<open>P\<close>.
\<close>

definition on_catalog :: "world platform \<Rightarrow> world platform" where
  "on_catalog P = P\<lparr>boto3_client_glue := (\<lambda>region. glue_catalog), s3_get_object := s3_store\<rparr>"

text \<open>
  A second reconciler that wins every race: between the existence check of this run and
  its create call, the rival has made the same create call.
\<close>

definition with_rival :: "'s glue_client \<Rightarrow> 's glue_client" where
  "with_rival c =
     c\<lparr>create_database := (\<lambda>n s. create_database c n (snd (create_database c n s))),
       create_table := (\<lambda>d ti s. create_table c d ti (snd (create_table c d ti s))),
       create_partition :=
         (\<lambda>d t inp s. create_partition c d t inp (snd (create_partition c d t inp s)))\<rparr>"

subsection \<open>Joining with a separator\<close>


subsection \<open>A sample platform, event and world\<close>

text \<open>
  Concrete values on which the theorems are run. \<open>sample_urlparse\<close> is what
  \<^verbatim>\<open>urlparse\<close> of urllib returns on a URI that starts with \<^verbatim>\<open>s3://\<close> and
  holds no tab, carriage return, line feed or bracket: the network location ends before the
  first \<^verbatim>\<open>/\<close>, \<^verbatim>\<open>?\<close> or \<^verbatim>\<open>#\<close>, and the path ends before the first
  \<^verbatim>\<open>?\<close> or \<^verbatim>\<open>#\<close>. The sample store holds the header
  files decompressed, so the sample \<open>gunzip\<close> returns its input; the sample decoder
  is UTF-8 on bytes below 128. The world has no database yet and holds the header files
  of three dates: \<^verbatim>\<open>"a\tb\tc\n"\<close>, \<^verbatim>\<open>"\ta\tb\n"\<close> and \<^verbatim>\<open>" \n"\<close>.
\<close>

definition sample_urlparse :: "string \<Rightarrow> url" where
  "sample_urlparse u =
     (let rest = drop 5 u;
          from_path =
            dropWhile (\<lambda>c. c \<noteq> CHR ''/'' \<and> c \<noteq> CHR ''?'' \<and> c \<noteq> CHR ''#'') rest
      in \<lparr> url_netloc =
             takeWhile (\<lambda>c. c \<noteq> CHR ''/'' \<and> c \<noteq> CHR ''?'' \<and> c \<noteq> CHR ''#'') rest,
           url_path = takeWhile (\<lambda>c. c \<noteq> CHR ''?'' \<and> c \<noteq> CHR ''#'') from_path \<rparr>)"

definition sample_utf8_decode :: "bytes \<Rightarrow> exn + string" where
  "sample_utf8_decode bs =
     (if list_all (\<lambda>b. b < 128) bs then Inr (map (\<lambda>b. char_of (unat b)) bs)
      else Inl UnicodeDecodeError)"

definition sample_platform :: "world platform" where
  "sample_platform =
     \<lparr> environ = [''DB_NAME'' \<mapsto> ''adobe'', ''AWS_REGION'' \<mapsto> ''us-east-1''],
       boto3_client_glue = (\<lambda>region. glue_catalog),
       s3_get_object = s3_store,
       urlparse = sample_urlparse,
       gunzip = Inr,
       utf8_decode = sample_utf8_decode,
       time_time = (\<lambda>w. 1700000000) \<rparr>"

definition sample_event :: "string \<rightharpoonup> string" where
  "sample_event =
     [''reportBase'' \<mapsto> ''s3://bucket/feed'', ''lookupURI'' \<mapsto> ''s3://bucket/lookup'',
      ''reportDate'' \<mapsto> ''2024-03-01'']"

definition sample_world :: world where
  "sample_world =
     \<lparr> databases = [], tables = [], partitions = [],
       objects =
         [((''bucket'', ''feed/rawtsv/column_headers/dt=2024-03-01/column_headers.tsv.gz''),
           [0x61, 0x09, 0x62, 0x09, 0x63, 0x0A]),
          ((''bucket'', ''feed/rawtsv/column_headers/dt=2024-03-02/column_headers.tsv.gz''),
           [0x09, 0x61, 0x09, 0x62, 0x0A]),
          ((''bucket'', ''feed/rawtsv/column_headers/dt=2024-03-03/column_headers.tsv.gz''),
           [0x20, 0x0A])] \<rparr>"

subsection \<open>The header resolver as the specification words it\<close>



subsection \<open>What the record of a run looks like\<close>

text \<open>
  An event is benign when its call returned, or when it is an existence check that
  answered not-found: these are the events after which the source goes on.
\<close>

definition benign :: "glue_event \<Rightarrow> bool" where
  "benign ev =
     (case snd ev of
        Inr u \<Rightarrow> True
      | Inl e \<Rightarrow> \<not> is_create (fst ev) \<and> e = EntityNotFoundException)"

text \<open>
  \<open>outcome_ok r evs\<close>: an event that is not benign is the last one, and its exception is
  the result \<open>r\<close> of the run.
\<close>

fun outcome_ok :: "(exn + unit) \<Rightarrow> glue_event list \<Rightarrow> bool" where
  "outcome_ok r [] = True"
| "outcome_ok r (ev # evs) = (if benign ev then outcome_ok r evs else evs = [] \<and> r = snd ev)"

text \<open>
  \<open>gated prev evs\<close>: a create call comes right after the existence check for its object,
  and that check answered not-found; \<open>prev\<close> is the event before \<open>evs\<close>, if any.
\<close>

fun gated :: "glue_event option \<Rightarrow> glue_event list \<Rightarrow> bool" where
  "gated prev [] = True"
| "gated prev (ev # evs) =
     ((if is_create (fst ev)
       then prev = Some (probe_of (fst ev), Inl EntityNotFoundException)
       else True) \<and> gated (Some ev) evs)"

text \<open>The record of step \<open>k\<close> of the handler, run on its own, with result \<open>r\<close>.\<close>

definition step_run :: "nat \<Rightarrow> (exn + unit) \<Rightarrow> glue_event list \<Rightarrow> bool" where
  "step_run k r evs =
     (outcome_ok r evs \<and> gated None evs \<and> list_all (\<lambda>ev. step_of (fst ev) = k) evs \<and>
      evs \<noteq> [])"

text \<open>
  The record of the steps \<open>k\<close> to 4 of the handler, run one after the other with result
  \<open>r\<close>: the steps come in their order, and a run that returns has been through each of
  them.
\<close>

definition steps_from :: "nat \<Rightarrow> (exn + unit) \<Rightarrow> glue_event list \<Rightarrow> bool" where
  "steps_from k r evs =
     (outcome_ok r evs \<and> gated None evs \<and> sorted (map (\<lambda>ev. step_of (fst ev)) evs) \<and>
      list_all (\<lambda>ev. k \<le> step_of (fst ev)) evs \<and>
      (r = Inr () \<longrightarrow>
         (\<forall>j. k \<le> j \<and> j \<le> 4 \<longrightarrow> j \<in> set (map (\<lambda>ev. step_of (fst ev)) evs))))"

subsection \<open>Running a step again\<close>

text \<open>
  \<open>extends w w'\<close>: the catalogue of \<open>w'\<close> is the one of \<open>w\<close> followed by new entries,
  and the object store is the same. \<open>settled f w\<close>: the step \<open>f\<close> returns in \<open>w\<close> and
  leaves it as it is. \<open>idempotent f\<close>: run right after itself, \<open>f\<close> changes nothing and
  ends as it did. \<open>keeps f g\<close>: the step \<open>g\<close> leaves \<open>f\<close> settled.
\<close>

definition extends :: "world \<Rightarrow> world \<Rightarrow> bool" where
  "extends w w' =
     (prefix (databases w) (databases w') \<and> prefix (tables w) (tables w') \<and>
      prefix (partitions w) (partitions w') \<and> objects w' = objects w)"

definition settled :: "(world, unit) io \<Rightarrow> world \<Rightarrow> bool" where
  "settled f w = (f w = (Inr (), w))"

definition idempotent :: "(world, unit) io \<Rightarrow> bool" where
  "idempotent f = (\<forall>w. f (snd (f w)) = f w)"

definition keeps :: "(world, unit) io \<Rightarrow> (world, unit) io \<Rightarrow> bool" where
  "keeps f g = (\<forall>w. settled f w \<longrightarrow> settled f (snd (g w)))"

subsection \<open>Sample platforms with a rival and with a refusal\<close>

text \<open>
  The sample platform with a rival reconciler that wins every race, and the sample
  platform on which every table lookup is refused with an access-denied error.
\<close>

definition rival_platform :: "world platform" where
  "rival_platform = sample_platform\<lparr>boto3_client_glue := (\<lambda>region. with_rival glue_catalog)\<rparr>"

definition denied_platform :: "world platform" where
  "denied_platform =
     sample_platform\<lparr>boto3_client_glue :=
       (\<lambda>region. glue_catalog\<lparr>get_table := (\<lambda>d t w. (Inl AccessDeniedException, w))\<rparr>)\<rparr>"

subsection \<open>Sample worlds\<close>


definition sample_hit_data_table :: table_input where
  "sample_hit_data_table =
     \<lparr> tbl_Name = ''hit_data'',
       tbl_StorageDescriptor =
         storage_descriptor
           [\<lparr> col_Type = ''string'', col_Name = ''a'' \<rparr>,
            \<lparr> col_Type = ''string'', col_Name = ''b'' \<rparr>,
            \<lparr> col_Type = ''string'', col_Name = ''c'' \<rparr>]
           ''s3://bucket/feed/rawtsv/hit_data/'',
       tbl_PartitionKeys = [\<lparr> col_Type = ''string'', col_Name = ''dt'' \<rparr>],
       tbl_TableType = ''EXTERNAL_TABLE'',
       tbl_Parameters = [],
       tbl_LastAccessTime = 1700000000 \<rparr>"

definition sample_partition_day1 :: partition_input where
  "sample_partition_day1 =
     \<lparr> part_Values = [''2024-03-01''],
       part_StorageDescriptor =
         storage_descriptor
           [\<lparr> col_Type = ''string'', col_Name = ''a'' \<rparr>,
            \<lparr> col_Type = ''string'', col_Name = ''b'' \<rparr>,
            \<lparr> col_Type = ''string'', col_Name = ''c'' \<rparr>]
           ''s3://bucket/feed/rawtsv/hit_data/dt=2024-03-01/'',
       part_Parameters = [] \<rparr>"

definition day1_world :: world where
  "day1_world =
     sample_world
       \<lparr>databases := [''adobe''],
        tables := [((''adobe'', ''hit_data''), sample_hit_data_table)],
        partitions := [((''adobe'', ''hit_data'', [''2024-03-01'']), sample_partition_day1)]\<rparr>"

definition stale_browser_table :: table_input where
  "stale_browser_table =
     \<lparr> tbl_Name = ''browser'',
       tbl_StorageDescriptor =
         storage_descriptor
           [\<lparr> col_Type = ''string'', col_Name = ''id'' \<rparr>,
            \<lparr> col_Type = ''string'', col_Name = ''value'' \<rparr>]
           ''s3://bucket/old/browser/'',
       tbl_PartitionKeys = [],
       tbl_TableType = ''EXTERNAL_TABLE'',
       tbl_Parameters = [],
       tbl_LastAccessTime = 1690000000 \<rparr>"

definition stale_world :: world where
  "stale_world =
     sample_world
       \<lparr>databases := [''adobe''],
        tables := [((''adobe'', ''browser''), stale_browser_table)]\<rparr>"

subsection \<open>The existence checks of a run and what follows them\<close>

text \<open>
  The existence checks among the recorded calls, and the checks the handler makes when no
  call raises, in the order of the source: the database, the table
  \<^verbatim>\<open>hit_data\<close>, the lookup tables in the order of their list, the partition.
\<close>

definition checks :: "glue_event list \<Rightarrow> glue_call list" where
  "checks evs = filter (\<lambda>k. \<not> is_create k) (map fst evs)"

definition checks_of :: "string \<Rightarrow> string \<Rightarrow> glue_call list" where
  "checks_of db date =
     [GetDatabase db, GetTable db ''hit_data''] @ map (GetTable db) generic_lookup_types @
     [GetPartition db ''hit_data'' [date]]"

text \<open>
  \<open>followed r evs\<close>: an existence check that answered not-found is followed at once by
  the create call for its object; when it is the last call, the run has raised (between the
  check and the create call, where the header file is read).
\<close>

fun followed :: "(exn + unit) \<Rightarrow> glue_event list \<Rightarrow> bool" where
  "followed r [] = True"
| "followed r [ev] =
     (if \<not> is_create (fst ev) \<and> snd ev = Inl EntityNotFoundException then r \<noteq> Inr ()
      else True)"
| "followed r (ev # ev' # evs) =
     ((if \<not> is_create (fst ev) \<and> snd ev = Inl EntityNotFoundException
       then is_create (fst ev') \<and> probe_of (fst ev') = fst ev
       else True) \<and> followed r (ev' # evs))"

text \<open>
  \<open>did ps r evs\<close>: the record \<open>evs\<close> of a part of the handler that makes the checks
  \<open>ps\<close> when nothing raises, with result \<open>r\<close>.
\<close>

definition did :: "glue_call list \<Rightarrow> (exn + unit) \<Rightarrow> glue_event list \<Rightarrow> bool" where
  "did ps r evs =
     (followed r evs \<and> prefix (checks evs) ps \<and> (r = Inr () \<longrightarrow> checks evs = ps))"

text \<open>What each recorded call was: its step, whether it is a create call, its answer.\<close>

definition summary :: "glue_event list \<Rightarrow> (nat \<times> bool \<times> (exn + unit)) list" where
  "summary evs = map (\<lambda>ev. (step_of (fst ev), is_create (fst ev), snd ev)) evs"

subsection \<open>A catalogue that keeps its objects\<close>

text \<open>
  The call of the client that a recorded call stands for.
\<close>

fun run_call :: "'s glue_client \<Rightarrow> glue_call \<Rightarrow> ('s, unit) io" where
  "run_call c (GetDatabase n) = get_database c n"
| "run_call c (CreateDatabase n) = create_database c n"
| "run_call c (GetTable d t) = get_table c d t"
| "run_call c (CreateTable d ti) = create_table c d ti"
| "run_call c (GetPartition d t vs) = get_partition c d t vs"
| "run_call c (CreatePartition d t inp) = create_partition c d t inp"

text \<open>
  \<open>persistent P has\<close>, where \<open>has k s\<close> says that the object the existence check \<open>k\<close>
  asks for is there in the state \<open>s\<close>: a lookup of an object that is there returns and
  changes nothing; an object that a lookup or a create call has returned for is there; and
  an object that is there stays there through every call to the catalogue and to the
  object store. A catalogue that others delete from, or whose lookups are stale or fail now
  and then, is not persistent.
\<close>

definition persistent :: "'s platform \<Rightarrow> (glue_call \<Rightarrow> 's \<Rightarrow> bool) \<Rightarrow> bool" where
  "persistent P has =
     ((\<forall>region k s. has k s \<and> \<not> is_create k \<longrightarrow>
         run_call (boto3_client_glue P region) k s = (Inr (), s)) \<and>
      (\<forall>region k s s'. run_call (boto3_client_glue P region) k s = (Inr (), s') \<longrightarrow>
         has (probe_of k) s') \<and>
      (\<forall>region k k' s. has k s \<longrightarrow>
         has k (snd (run_call (boto3_client_glue P region) k' s))) \<and>
      (\<forall>bucket key k s. has k s \<longrightarrow> has k (snd (s3_get_object P bucket key s))))"

text \<open>What is there in the sequential catalogue.\<close>

fun catalog_has :: "glue_call \<Rightarrow> world \<Rightarrow> bool" where
  "catalog_has (GetDatabase n) w = has_database w n"
| "catalog_has (GetTable d t) w = has_table w d t"
| "catalog_has (GetPartition d t vs) w = has_partition w d t vs"
| "catalog_has k w = False"

section \<open>Properties\<close>

subsection \<open>Python's string functions\<close>




lemma py_split_all_space: "py_split sep [] = [[]]"
  by simp

lemma py_strip_all_space:
  assumes "\<forall>c \<in> set s. py_isspace c"
  shows "py_strip s = []"
proof -
  from assms have "dropWhile py_isspace s = []" by (simp add: dropWhile_eq_Nil_conv)
  then show ?thesis
    unfolding py_strip_def py_rstrip_def py_lstrip_def
    by (simp only: rev.simps dropWhile.simps)
qed




subsection \<open>The sample values and the steps\<close>

lemmas sample_defs = sample_platform_def sample_world_def sample_urlparse_def
  sample_utf8_decode_def s3_store_def

lemmas get_headers_defs = get_headers_def get_s3_file_def os_path_join_def join_step_def
  io_bind_def py_lstrip_def py_strip_def py_rstrip_def py_isspace_def

lemma sample_headers_1:
  "get_headers sample_platform ''s3://bucket/feed'' ''2024-03-01'' sample_world
     = (Inr [''a'', ''b'', ''c''], sample_world)"
  by (simp add: get_headers_defs sample_defs char_of_def bit_0)

lemma sample_headers_2:
  "get_headers sample_platform ''s3://bucket/feed'' ''2024-03-02'' sample_world
     = (Inr [''a'', ''b''], sample_world)"
  by (simp add: get_headers_defs sample_defs char_of_def bit_0)

lemma get_headers_result:
  assumes "get_s3_file P
             (os_path_join base
                [''rawtsv'', ''column_headers'', ''dt='' @ date, ''column_headers.tsv.gz'']) s
           = (Inr body, s')"
    and "gunzip P body = Inr raw"
    and "utf8_decode P raw = Inr got_text"
  shows "get_headers P base date s = (Inr (py_split (CHR 0x09) (py_strip got_text)), s')"
  using assms by (simp add: get_headers_def io_bind_def)

lemma create_glue_table_absent:
  assumes "get_table c db ''hit_data'' s = (Inl EntityNotFoundException, s1)"
    and "get_headers P base date s1 = (Inr headers, s2)"
  shows "create_glue_table P c db base date s =
     create_table c db
       \<lparr> tbl_Name = ''hit_data'',
         tbl_StorageDescriptor =
           storage_descriptor
             (map (\<lambda>name. \<lparr> col_Type = ''string'', col_Name = name \<rparr>) headers)
             (base @ ''/rawtsv/hit_data/''),
         tbl_PartitionKeys = [\<lparr> col_Type = ''string'', col_Name = ''dt'' \<rparr>],
         tbl_TableType = ''EXTERNAL_TABLE'',
         tbl_Parameters = [],
         tbl_LastAccessTime = time_time P s2 \<rparr> s2"
  using assms by (simp add: create_glue_table_def does_table_exist_def io_bind_def)

lemma add_hitdata_partition_absent:
  assumes "get_partition c db ''hit_data'' [date] s = (Inl EntityNotFoundException, s1)"
  shows "add_hitdata_partition P c db base date s =
     io_bind (get_headers P base date) (\<lambda>headers.
       create_partition c db ''hit_data''
         \<lparr> part_Values = [date],
           part_StorageDescriptor =
             storage_descriptor
               (map (\<lambda>name. \<lparr> col_Type = ''string'', col_Name = name \<rparr>) headers)
               (base @ ''/rawtsv/hit_data/dt='' @ date @ ''/''),
           part_Parameters = [] \<rparr>) s1"
  using assms by (simp add: add_hitdata_partition_def does_partition_exist_def io_bind_def)

subsection \<open>The schema of the base table\<close>

text \<open>
  C4. For every ordered list of header names, the storage descriptor built for the base
  table declares exactly one column per header name, in header order, each of type
  \<^verbatim>\<open>string\<close>; its serde is the OpenCSV serde with the tab character as
  separator; its \<^verbatim>\<open>BucketColumns\<close> list and its \<^verbatim>\<open>Parameters\<close>
  dictionary are there and empty. This is the descriptor of the table input that
  \<open>create_glue_table\<close> sends when the table is absent.
\<close>

theorem hit_data_storage_descriptor:
  "(let sd = storage_descriptor
               (map (\<lambda>name. \<lparr> col_Type = ''string'', col_Name = name \<rparr>) headers) location
    in length (sd_Columns sd) = length headers \<and>
       map col_Name (sd_Columns sd) = headers \<and>
       map col_Type (sd_Columns sd) = replicate (length headers) ''string'' \<and>
       serde_SerializationLibrary (sd_SerdeInfo sd)
         = ''org.apache.hadoop.hive.serde2.OpenCSVSerde'' \<and>
       serde_Parameters (sd_SerdeInfo sd) = [(''separatorChar'', [CHR 0x09])] \<and>
       sd_BucketColumns sd = [] \<and>
       sd_Parameters sd = []) \<and>
   (get_table c db ''hit_data'' s = (Inl EntityNotFoundException, s1) \<longrightarrow>
    get_headers P base date s1 = (Inr headers, s2) \<longrightarrow>
    (\<exists>ti. create_glue_table P c db base date s = create_table c db ti s2 \<and>
          tbl_Name ti = ''hit_data'' \<and>
          tbl_StorageDescriptor ti =
            storage_descriptor
              (map (\<lambda>name. \<lparr> col_Type = ''string'', col_Name = name \<rparr>) headers)
              (base @ ''/rawtsv/hit_data/'')))"
proof -
  have cols: "map col_Name (map (\<lambda>name. \<lparr> col_Type = ''string'', col_Name = name \<rparr>) headers)
      = headers"
    by (induction headers) simp_all
  have tys: "map col_Type (map (\<lambda>name. \<lparr> col_Type = ''string'', col_Name = name \<rparr>) headers)
      = replicate (length headers) ''string''"
    by (induction headers) simp_all
  have pure: "let sd = storage_descriptor
               (map (\<lambda>name. \<lparr> col_Type = ''string'', col_Name = name \<rparr>) headers) location
    in length (sd_Columns sd) = length headers \<and>
       map col_Name (sd_Columns sd) = headers \<and>
       map col_Type (sd_Columns sd) = replicate (length headers) ''string'' \<and>
       serde_SerializationLibrary (sd_SerdeInfo sd)
         = ''org.apache.hadoop.hive.serde2.OpenCSVSerde'' \<and>
       serde_Parameters (sd_SerdeInfo sd) = [(''separatorChar'', [CHR 0x09])] \<and>
       sd_BucketColumns sd = [] \<and>
       sd_Parameters sd = []"
    unfolding Let_def storage_descriptor_def using cols tys by simp
  have step: "get_table c db ''hit_data'' s = (Inl EntityNotFoundException, s1) \<longrightarrow>
    get_headers P base date s1 = (Inr headers, s2) \<longrightarrow>
    (\<exists>ti. create_glue_table P c db base date s = create_table c db ti s2 \<and>
          tbl_Name ti = ''hit_data'' \<and>
          tbl_StorageDescriptor ti =
            storage_descriptor
              (map (\<lambda>name. \<lparr> col_Type = ''string'', col_Name = name \<rparr>) headers)
              (base @ ''/rawtsv/hit_data/''))"
  proof (intro impI)
    assume a: "get_table c db ''hit_data'' s = (Inl EntityNotFoundException, s1)"
      and b: "get_headers P base date s1 = (Inr headers, s2)"
    show "\<exists>ti. create_glue_table P c db base date s = create_table c db ti s2 \<and>
          tbl_Name ti = ''hit_data'' \<and>
          tbl_StorageDescriptor ti =
            storage_descriptor
              (map (\<lambda>name. \<lparr> col_Type = ''string'', col_Name = name \<rparr>) headers)
              (base @ ''/rawtsv/hit_data/'')"
      by (subst create_glue_table_absent [OF a b]) (rule exI, intro conjI, rule refl, simp_all)
  qed
  from pure step show ?thesis by (rule conjI)
qed

theorem hit_data_storage_descriptor_witness:
  "map col_Name
     (sd_Columns (storage_descriptor
        (map (\<lambda>name. \<lparr> col_Type = ''string'', col_Name = name \<rparr>) [''a'', ''b'', ''c''])
        ''s3://bucket/feed/rawtsv/hit_data/'')) = [''a'', ''b'', ''c''] \<and>
   get_table glue_catalog ''adobe'' ''hit_data'' sample_world
     = (Inl EntityNotFoundException, sample_world) \<and>
   get_headers sample_platform ''s3://bucket/feed'' ''2024-03-01'' sample_world
     = (Inr [''a'', ''b'', ''c''], sample_world) \<and>
   (\<exists>ti. create_glue_table sample_platform glue_catalog ''adobe'' ''s3://bucket/feed''
            ''2024-03-01'' sample_world
          = create_table glue_catalog ''adobe'' ti sample_world \<and>
        tbl_Name ti = ''hit_data'' \<and>
        tbl_StorageDescriptor ti =
          storage_descriptor
            (map (\<lambda>name. \<lparr> col_Type = ''string'', col_Name = name \<rparr>) [''a'', ''b'', ''c''])
            (''s3://bucket/feed'' @ ''/rawtsv/hit_data/''))"
proof -
  have a: "get_table glue_catalog ''adobe'' ''hit_data'' sample_world
     = (Inl EntityNotFoundException, sample_world)"
    by (simp add: glue_catalog_def has_table_def sample_world_def)
  note b = sample_headers_1
  from hit_data_storage_descriptor
    [of "[''a'', ''b'', ''c'']" "''s3://bucket/feed/rawtsv/hit_data/''" glue_catalog "''adobe''"
        sample_world sample_world sample_platform "''s3://bucket/feed''" "''2024-03-01''"
        sample_world]
  show ?thesis using a b by (simp add: Let_def)
qed

lemma sample_headers_3:
  "get_headers sample_platform ''s3://bucket/feed'' ''2024-03-03'' sample_world
     = (Inr [''''], sample_world)"
  by (simp add: get_headers_defs sample_defs char_of_def bit_0)


subsection \<open>The header resolver\<close>




text \<open>
  C10. If the decompressed, decoded content of the header file is empty or whitespace only,
  the header resolver returns the list of one empty name, never the empty list; a table or
  a partition created from it has exactly one column, whose name is the empty string.
\<close>

theorem blank_header_file_gives_one_empty_column:
  assumes "get_s3_file P
             (os_path_join base
                [''rawtsv'', ''column_headers'', ''dt='' @ date, ''column_headers.tsv.gz'']) s
           = (Inr body, s')"
    and "gunzip P body = Inr raw"
    and "utf8_decode P raw = Inr got_text"
    and "\<forall>c \<in> set got_text. py_isspace c"
  shows "get_headers P base date s = (Inr [''''], s') \<and>
    (\<forall>s0. get_table c db ''hit_data'' s0 = (Inl EntityNotFoundException, s) \<longrightarrow>
       (\<exists>ti. create_glue_table P c db base date s0 = create_table c db ti s' \<and>
             sd_Columns (tbl_StorageDescriptor ti)
               = [\<lparr> col_Type = ''string'', col_Name = '''' \<rparr>])) \<and>
    (\<forall>s0. get_partition c db ''hit_data'' [date] s0 = (Inl EntityNotFoundException, s) \<longrightarrow>
       (\<exists>inp. add_hitdata_partition P c db base date s0
                = create_partition c db ''hit_data'' inp s' \<and>
              sd_Columns (part_StorageDescriptor inp)
                = [\<lparr> col_Type = ''string'', col_Name = '''' \<rparr>]))"
proof -
  have st: "py_strip got_text = []" by (rule py_strip_all_space [OF assms(4)])
  have g: "get_headers P base date s = (Inr [''''], s')"
    using get_headers_result [OF assms(1) assms(2) assms(3)] by (simp add: st)
  have t: "\<exists>ti. create_glue_table P c db base date s0 = create_table c db ti s' \<and>
             sd_Columns (tbl_StorageDescriptor ti)
               = [\<lparr> col_Type = ''string'', col_Name = '''' \<rparr>]"
    if a: "get_table c db ''hit_data'' s0 = (Inl EntityNotFoundException, s)" for s0
    by (subst create_glue_table_absent [OF a g])
       (rule exI, intro conjI, rule refl, simp add: storage_descriptor_def)
  have p: "\<exists>inp. add_hitdata_partition P c db base date s0
                = create_partition c db ''hit_data'' inp s' \<and>
              sd_Columns (part_StorageDescriptor inp)
                = [\<lparr> col_Type = ''string'', col_Name = '''' \<rparr>]"
    if a: "get_partition c db ''hit_data'' [date] s0 = (Inl EntityNotFoundException, s)" for s0
    by (subst add_hitdata_partition_absent [OF a], simp only: io_bind_def g prod.case sum.case)
       (rule exI, intro conjI, rule refl, simp add: storage_descriptor_def)
  from g t p show ?thesis by blast
qed

theorem blank_header_file_witness:
  "list_all py_isspace [CHR 0x20, CHR 0x0A] \<and>
   get_headers sample_platform ''s3://bucket/feed'' ''2024-03-03'' sample_world
     = (Inr [''''], sample_world)"
proof -
  have a: "get_s3_file sample_platform
             (os_path_join ''s3://bucket/feed''
                [''rawtsv'', ''column_headers'', ''dt='' @ ''2024-03-03'',
                 ''column_headers.tsv.gz'']) sample_world
           = (Inr [0x20, 0x0A], sample_world)"
    by (simp add: get_s3_file_def os_path_join_def join_step_def sample_defs py_lstrip_def)
  have b: "gunzip sample_platform [0x20, 0x0A] = Inr [0x20, 0x0A]"
    by (simp add: sample_defs)
  have c: "utf8_decode sample_platform [0x20, 0x0A] = Inr [CHR 0x20, CHR 0x0A]"
    by (simp add: sample_defs char_of_def bit_0)
  have d: "\<forall>c \<in> set [CHR 0x20, CHR 0x0A]. py_isspace c"
    by (simp add: py_isspace_def)
  from blank_header_file_gives_one_empty_column [OF a b c d, of glue_catalog "''adobe''"] d
  show ?thesis by (simp add: list_all_iff)
qed

subsection \<open>The record of a run: each step, the loop, the handler\<close>

lemma io_bind_cases:
  assumes "io_bind m f s = (r, s')"
  obtains (raised) e where "m s = (Inl e, s')" "r = Inl e"
  | (returned) x s1 where "m s = (Inr x, s1)" "f x s1 = (r, s')"
  using assms by (auto simp add: io_bind_def split: prod.splits sum.splits)

lemma outcome_ok_returned: "outcome_ok (Inr u) evs = list_all benign evs"
  by (induction evs) (auto simp add: benign_def split: sum.splits)

lemma outcome_ok_benign: "list_all benign evs \<Longrightarrow> outcome_ok r evs"
  by (induction evs) auto

lemma outcome_ok_append:
  assumes "outcome_ok (Inr u) evs1" and "outcome_ok r evs2"
  shows "outcome_ok r (evs1 @ evs2)"
proof -
  from assms(1) have "list_all benign evs1" by (simp add: outcome_ok_returned)
  then show ?thesis using assms(2) by (induction evs1) simp_all
qed

lemma outcome_ok_split:
  "outcome_ok r (before @ ev # after) \<Longrightarrow> \<not> benign ev \<Longrightarrow> after = [] \<and> r = snd ev"
  by (induction before) (auto split: if_splits)

lemma gated_any: "gated None evs \<Longrightarrow> gated prev evs"
  by (cases evs) (auto split: if_splits)

lemma gated_append: "gated prev evs1 \<Longrightarrow> gated None evs2 \<Longrightarrow> gated prev (evs1 @ evs2)"
  by (induction evs1 arbitrary: prev) (auto simp add: gated_any)

lemma gated_nth:
  "gated prev evs \<Longrightarrow> i < length evs \<Longrightarrow> is_create (fst (evs ! i)) \<Longrightarrow>
     (if i = 0 then prev else Some (evs ! (i - 1)))
       = Some (probe_of (fst (evs ! i)), Inl EntityNotFoundException)"
proof (induction evs arbitrary: prev i)
  case Nil
  then show ?case by simp
next
  case (Cons ev evs)
  show ?case
  proof (cases i)
    case 0
    with Cons.prems show ?thesis by (simp split: if_splits)
  next
    case (Suc j)
    with Cons.prems have g: "gated (Some ev) evs" and j: "j < length evs"
      and c: "is_create (fst (evs ! j))" by simp_all
    from Cons.IH [OF g j c] Suc show ?thesis
      by (cases j) simp_all
  qed
qed

lemma log_call_run:
  "log_call k m (s, tr) = (fst (m s), (snd (m s), tr @ [(k, fst (m s))]))"
  by (simp add: log_call_def split: prod.splits)

lemma traced_simps:
  "get_database (traced c) n = log_call (GetDatabase n) (get_database c n)"
  "create_database (traced c) n = log_call (CreateDatabase n) (create_database c n)"
  "get_table (traced c) d t = log_call (GetTable d t) (get_table c d t)"
  "create_table (traced c) d ti = log_call (CreateTable d ti) (create_table c d ti)"
  "get_partition (traced c) d t vs = log_call (GetPartition d t vs) (get_partition c d t vs)"
  "create_partition (traced c) d t inp
     = log_call (CreatePartition d t inp) (create_partition c d t inp)"
  by (simp_all add: traced_def)

lemma create_db_traced:
  assumes "create_db (traced c) db (s, tr) = (r, (s', tr'))"
  shows "\<exists>evs. tr' = tr @ evs \<and> step_run 1 r evs"
  using assms
  by (auto simp add: create_db_def traced_simps log_call_run step_run_def benign_def
      split: prod.splits sum.splits if_splits)

lemma get_headers_traced:
  "get_headers (traced_platform P) base date (s, tr)
     = (fst (get_headers P base date s), (snd (get_headers P base date s), tr))"
  by (simp add: get_headers_def get_s3_file_def traced_platform_def io_bind_def Let_def
      split: prod.splits sum.splits)

lemma does_table_exist_traced:
  "does_table_exist (traced c) d t (s, tr) =
     (fst (does_table_exist c d t s),
      (snd (does_table_exist c d t s), tr @ [(GetTable d t, fst (get_table c d t s))]))"
  by (simp add: does_table_exist_def traced_simps log_call_run split: prod.splits sum.splits)

lemma does_partition_exist_traced:
  "does_partition_exist (traced c) d t vs (s, tr) =
     (fst (does_partition_exist c d t vs s),
      (snd (does_partition_exist c d t vs s),
       tr @ [(GetPartition d t vs, fst (get_partition c d t vs s))]))"
  by (simp add: does_partition_exist_def traced_simps log_call_run
      split: prod.splits sum.splits)

lemma create_glue_table_traced:
  assumes "create_glue_table (traced_platform P) (traced c) db base date (s, tr) = (r, (s', tr'))"
  shows "\<exists>evs. tr' = tr @ evs \<and> step_run 2 r evs"
  using assms
  by (auto simp add: create_glue_table_def does_table_exist_def traced_simps log_call_run
      get_headers_traced io_bind_def io_return_def step_run_def benign_def
      split: prod.splits sum.splits if_splits)

lemma add_hitdata_partition_traced:
  assumes "add_hitdata_partition (traced_platform P) (traced c) db base date (s, tr)
           = (r, (s', tr'))"
  shows "\<exists>evs. tr' = tr @ evs \<and> step_run 4 r evs"
  using assms
  by (auto simp add: add_hitdata_partition_def does_partition_exist_def traced_simps
      log_call_run get_headers_traced io_bind_def io_return_def step_run_def benign_def
      split: prod.splits sum.splits if_splits)

lemma create_lookup_table_traced:
  assumes "create_lookup_table (traced_platform P) (traced c) db uri name (s, tr)
           = (r, (s', tr'))"
    and "name \<noteq> ''hit_data''"
  shows "\<exists>evs. tr' = tr @ evs \<and> step_run 3 r evs"
  using assms
  by (auto simp add: create_lookup_table_def does_table_exist_def traced_simps log_call_run
      io_bind_def io_return_def step_run_def benign_def
      split: prod.splits sum.splits if_splits)

lemma hit_data_not_lookup: "''hit_data'' \<notin> set generic_lookup_types"
  by (simp add: generic_lookup_types_def)

lemma for_lookup_names_traced:
  assumes "for_lookup_names (traced_platform P) (traced c) db uri names (s, tr) = (r, (s', tr'))"
    and "''hit_data'' \<notin> set names"
  shows "\<exists>evs. tr' = tr @ evs \<and> outcome_ok r evs \<and> gated None evs \<and>
           list_all (\<lambda>ev. step_of (fst ev) = 3) evs \<and> (names \<noteq> [] \<longrightarrow> evs \<noteq> [])"
  using assms
proof (induction names arbitrary: s tr)
  case Nil
  then show ?case by (simp add: io_return_def)
next
  case (Cons name rest)
  from Cons.prems(2) have nm: "name \<noteq> ''hit_data''" and rs: "''hit_data'' \<notin> set rest"
    by auto
  from Cons.prems(1) have
    "io_bind (create_lookup_table (traced_platform P) (traced c) db uri name)
       (\<lambda>u. for_lookup_names (traced_platform P) (traced c) db uri rest) (s, tr)
     = (r, (s', tr'))"
    by simp
  then show ?case
  proof (cases rule: io_bind_cases)
    case (raised e)
    from create_lookup_table_traced [OF raised(1) nm] raised(2)
    show ?thesis by (auto simp add: step_run_def)
  next
    case (returned x s1)
    obtain s1' tr1 where s1: "s1 = (s1', tr1)" by (cases s1)
    from returned(1) s1 have
      "create_lookup_table (traced_platform P) (traced c) db uri name (s, tr)
         = (Inr (), (s1', tr1))"
      by simp
    from create_lookup_table_traced [OF this nm]
    obtain evs1 where e1: "tr1 = tr @ evs1" "step_run 3 (Inr ()) evs1" by blast
    from returned(2) s1 have
      "for_lookup_names (traced_platform P) (traced c) db uri rest (s1', tr1) = (r, (s', tr'))"
      by simp
    from Cons.IH [OF this rs]
    obtain evs2 where e2: "tr' = tr1 @ evs2" "outcome_ok r evs2" "gated None evs2"
        "list_all (\<lambda>ev. step_of (fst ev) = 3) evs2"
      by blast
    from e1 e2 have a: "tr' = tr @ (evs1 @ evs2)" by simp
    from e1(2) e2(2) have b: "outcome_ok r (evs1 @ evs2)"
      by (simp add: step_run_def outcome_ok_append)
    from e1(2) e2(3) have c: "gated None (evs1 @ evs2)"
      by (simp add: step_run_def gated_append)
    from e1(2) e2(4) have d: "list_all (\<lambda>ev. step_of (fst ev) = 3) (evs1 @ evs2)"
      by (simp add: step_run_def)
    from e1(2) have e: "evs1 @ evs2 \<noteq> []" by (simp add: step_run_def)
    from a b c d e show ?thesis by blast
  qed
qed

lemma create_lookup_tables_traced:
  assumes "create_lookup_tables (traced_platform P) (traced c) db uri (s, tr) = (r, (s', tr'))"
  shows "\<exists>evs. tr' = tr @ evs \<and> step_run 3 r evs"
proof -
  from assms have
    "for_lookup_names (traced_platform P) (traced c) db uri generic_lookup_types (s, tr)
       = (r, (s', tr'))"
    by (simp add: create_lookup_tables_def)
  from for_lookup_names_traced [OF this hit_data_not_lookup]
  show ?thesis by (auto simp add: step_run_def generic_lookup_types_def)
qed

text \<open>What the handler does once the event and the environment are read.\<close>

lemma handler_cases:
  assumes "handler P event s = (r, s')"
  obtains (early) e where "r = Inl e" and "s' = s"
  | (run) report_base lookup_uri partition_date glue_database region
    where "event ''reportBase'' = Some report_base"
      and "event ''lookupURI'' = Some lookup_uri"
      and "event ''reportDate'' = Some partition_date"
      and "environ P ''DB_NAME'' = Some glue_database"
      and "environ P ''AWS_REGION'' = Some region"
      and "io_bind (create_db (boto3_client_glue P region) glue_database) (\<lambda>u1.
           io_bind (create_glue_table P (boto3_client_glue P region) glue_database
                      (py_rstrip (\<lambda>c. c = CHR ''/'') report_base) partition_date) (\<lambda>u2.
           io_bind (create_lookup_tables P (boto3_client_glue P region) glue_database
                      (py_rstrip (\<lambda>c. c = CHR ''/'') lookup_uri)) (\<lambda>u3.
           add_hitdata_partition P (boto3_client_glue P region) glue_database
             (py_rstrip (\<lambda>c. c = CHR ''/'') report_base) partition_date))) s = (r, s')"
proof (cases "event ''reportBase''")
  case None
  with assms early show ?thesis by (auto simp add: handler_def)
next
  case rb: (Some report_base)
  show ?thesis
  proof (cases "event ''lookupURI''")
    case None
    with assms rb early show ?thesis by (auto simp add: handler_def)
  next
    case lu: (Some lookup_uri)
    show ?thesis
    proof (cases "event ''reportDate''")
      case None
      with assms rb lu early show ?thesis by (auto simp add: handler_def)
    next
      case dt: (Some partition_date)
      show ?thesis
      proof (cases "environ P ''DB_NAME''")
        case None
        with assms rb lu dt early show ?thesis by (auto simp add: handler_def)
      next
        case db: (Some glue_database)
        show ?thesis
        proof (cases "environ P ''AWS_REGION''")
          case None
          with assms rb lu dt db early show ?thesis
            by (auto simp add: handler_def create_glue_client_def)
        next
          case rg: (Some region)
          from assms rb lu dt db rg have
            "io_bind (create_db (boto3_client_glue P region) glue_database) (\<lambda>u1.
             io_bind (create_glue_table P (boto3_client_glue P region) glue_database
                        (py_rstrip (\<lambda>c. c = CHR ''/'') report_base) partition_date) (\<lambda>u2.
             io_bind (create_lookup_tables P (boto3_client_glue P region) glue_database
                        (py_rstrip (\<lambda>c. c = CHR ''/'') lookup_uri)) (\<lambda>u3.
             add_hitdata_partition P (boto3_client_glue P region) glue_database
               (py_rstrip (\<lambda>c. c = CHR ''/'') report_base) partition_date))) s = (r, s')"
            by (simp add: handler_def create_glue_client_def Let_def)
          with rb lu dt db rg run show ?thesis by blast
        qed
      qed
    qed
  qed
qed

lemma sorted_same_step:
  "\<forall>ev \<in> set evs. step_of (fst ev) = k \<Longrightarrow> sorted (map (\<lambda>ev. step_of (fst ev)) evs)"
  by (induction evs) auto

lemma step_run_sorted:
  assumes "step_run k r evs"
  shows "sorted (map (\<lambda>ev. step_of (fst ev)) evs)"
proof -
  from assms have "\<forall>ev \<in> set evs. step_of (fst ev) = k"
    by (simp add: step_run_def list_all_iff)
  then show ?thesis by (rule sorted_same_step)
qed

lemma step_run_occurs:
  assumes "step_run k r evs"
  shows "k \<in> set (map (\<lambda>ev. step_of (fst ev)) evs)"
proof -
  from assms obtain ev where "ev \<in> set evs" by (cases evs) (auto simp add: step_run_def)
  with assms show ?thesis by (force simp add: step_run_def list_all_iff)
qed

lemma step_run_raised:
  assumes "step_run k (Inl e) evs"
  shows "steps_from k (Inl e) evs"
  using assms step_run_sorted [OF assms]
  by (simp add: step_run_def steps_from_def list_all_iff)

lemma step_run_last:
  assumes "step_run 4 r evs"
  shows "steps_from 4 r evs"
proof -
  from assms have a: "outcome_ok r evs" and b: "gated None evs"
    by (simp_all add: step_run_def)
  note c = step_run_sorted [OF assms]
  from assms have d: "list_all (\<lambda>ev. 4 \<le> step_of (fst ev)) evs"
    by (simp add: step_run_def list_all_iff)
  have "j \<in> set (map (\<lambda>ev. step_of (fst ev)) evs)" if "4 \<le> j" "j \<le> 4" for j
  proof -
    from that have "j = 4" by simp
    with step_run_occurs [OF assms] show ?thesis by simp
  qed
  then have e: "r = Inr () \<longrightarrow>
      (\<forall>j. 4 \<le> j \<and> j \<le> 4 \<longrightarrow> j \<in> set (map (\<lambda>ev. step_of (fst ev)) evs))"
    by blast
  from a b c d e show ?thesis unfolding steps_from_def by blast
qed

lemma step_run_then:
  assumes "step_run k (Inr ()) evs1" and "steps_from (Suc k) r evs2"
  shows "steps_from k r (evs1 @ evs2)"
proof -
  from assms have a: "outcome_ok r (evs1 @ evs2)"
    by (simp add: step_run_def steps_from_def outcome_ok_append)
  from assms have b: "gated None (evs1 @ evs2)"
    by (simp add: step_run_def steps_from_def gated_append)
  from assms step_run_sorted [OF assms(1)]
  have c: "sorted (map (\<lambda>ev. step_of (fst ev)) (evs1 @ evs2))"
    by (auto simp add: step_run_def steps_from_def sorted_append list_all_iff)
  from assms have d: "list_all (\<lambda>ev. k \<le> step_of (fst ev)) (evs1 @ evs2)"
    by (auto simp add: step_run_def steps_from_def list_all_iff)
  note k = step_run_occurs [OF assms(1)]
  have e: "j \<in> set (map (\<lambda>ev. step_of (fst ev)) (evs1 @ evs2))"
    if r: "r = Inr ()" and j: "k \<le> j" "j \<le> 4" for j
  proof (cases "j = k")
    case True
    with k show ?thesis by simp
  next
    case False
    with j have "Suc k \<le> j" by simp
    with assms(2) r j(2) have "j \<in> set (map (\<lambda>ev. step_of (fst ev)) evs2)"
      by (simp add: steps_from_def)
    then show ?thesis by simp
  qed
  from e have "r = Inr () \<longrightarrow>
      (\<forall>j. k \<le> j \<and> j \<le> 4 \<longrightarrow> j \<in> set (map (\<lambda>ev. step_of (fst ev)) (evs1 @ evs2)))"
    by blast
  with a b c d show ?thesis unfolding steps_from_def by blast
qed

lemma traced_platform_simps:
  "environ (traced_platform P) = environ P"
  "boto3_client_glue (traced_platform P) region = traced (boto3_client_glue P region)"
  by (simp_all add: traced_platform_def)

lemma handler_traced:
  assumes "handler (traced_platform P) event (s, tr) = (r, (s', tr'))"
  shows "\<exists>evs. tr' = tr @ evs \<and> steps_from 1 r evs"
  using assms
proof (cases rule: handler_cases)
  case (early e)
  then show ?thesis by (simp add: steps_from_def)
next
  case (run report_base lookup_uri partition_date db region)
  let ?P = "traced_platform P"
  let ?c = "traced (boto3_client_glue P region)"
  let ?base = "py_rstrip (\<lambda>c. c = CHR ''/'') report_base"
  let ?lookup = "py_rstrip (\<lambda>c. c = CHR ''/'') lookup_uri"
  from run(6) have
    "io_bind (create_db ?c db) (\<lambda>u1.
     io_bind (create_glue_table ?P ?c db ?base partition_date) (\<lambda>u2.
     io_bind (create_lookup_tables ?P ?c db ?lookup) (\<lambda>u3.
     add_hitdata_partition ?P ?c db ?base partition_date))) (s, tr) = (r, (s', tr'))"
    by (simp only: traced_platform_simps)
  then show ?thesis
  proof (cases rule: io_bind_cases)
    case (raised e)
    from create_db_traced [OF raised(1)] raised(2) show ?thesis
      by (auto intro: step_run_raised)
  next
    case r1: (returned x1 s1)
    obtain s1' tr1 where s1: "s1 = (s1', tr1)" by (cases s1)
    from r1(1) s1 have "create_db ?c db (s, tr) = (Inr (), (s1', tr1))" by simp
    from create_db_traced [OF this]
    obtain evs1 where e1: "tr1 = tr @ evs1" "step_run 1 (Inr ()) evs1" by blast
    from r1(2) s1 have
      "io_bind (create_glue_table ?P ?c db ?base partition_date) (\<lambda>u2.
       io_bind (create_lookup_tables ?P ?c db ?lookup) (\<lambda>u3.
       add_hitdata_partition ?P ?c db ?base partition_date)) (s1', tr1) = (r, (s', tr'))"
      by simp
    then have "\<exists>evs. tr' = tr1 @ evs \<and> steps_from 2 r evs"
    proof (cases rule: io_bind_cases)
      case (raised e)
      from create_glue_table_traced [OF raised(1)] raised(2) show ?thesis
        by (auto intro: step_run_raised)
    next
      case r2: (returned x2 s2)
      obtain s2' tr2 where s2: "s2 = (s2', tr2)" by (cases s2)
      from r2(1) s2 have
        "create_glue_table ?P ?c db ?base partition_date (s1', tr1) = (Inr (), (s2', tr2))"
        by simp
      from create_glue_table_traced [OF this]
      obtain evs2 where e2: "tr2 = tr1 @ evs2" "step_run 2 (Inr ()) evs2" by blast
      from r2(2) s2 have
        "io_bind (create_lookup_tables ?P ?c db ?lookup) (\<lambda>u3.
         add_hitdata_partition ?P ?c db ?base partition_date) (s2', tr2) = (r, (s', tr'))"
        by simp
      then have "\<exists>evs. tr' = tr2 @ evs \<and> steps_from 3 r evs"
      proof (cases rule: io_bind_cases)
        case (raised e)
        from create_lookup_tables_traced [OF raised(1)] raised(2) show ?thesis
          by (auto intro: step_run_raised)
      next
        case r3: (returned x3 s3)
        obtain s3' tr3 where s3: "s3 = (s3', tr3)" by (cases s3)
        from r3(1) s3 have
          "create_lookup_tables ?P ?c db ?lookup (s2', tr2) = (Inr (), (s3', tr3))"
          by simp
        from create_lookup_tables_traced [OF this]
        obtain evs3 where e3: "tr3 = tr2 @ evs3" "step_run 3 (Inr ()) evs3" by blast
        from r3(2) s3 have
          "add_hitdata_partition ?P ?c db ?base partition_date (s3', tr3) = (r, (s', tr'))"
          by simp
        from add_hitdata_partition_traced [OF this]
        obtain evs4 where e4: "tr' = tr3 @ evs4" "step_run 4 r evs4" by blast
        from e3(2) step_run_last [OF e4(2)] have "steps_from 3 r (evs3 @ evs4)"
          by (simp add: step_run_then numeral_3_eq_3 eval_nat_numeral)
        with e3(1) e4(1) show ?thesis by auto
      qed
      then obtain evs where e: "tr' = tr2 @ evs" "steps_from 3 r evs" by blast
      from e2(2) e(2) have "steps_from 2 r (evs2 @ evs)"
        by (simp add: step_run_then eval_nat_numeral)
      with e2(1) e(1) show ?thesis by auto
    qed
    then obtain evs where e: "tr' = tr1 @ evs" "steps_from 2 r evs" by blast
    from e1(2) e(2) have "steps_from 1 r (evs1 @ evs)"
      by (simp add: step_run_then eval_nat_numeral)
    with e1(1) e(1) show ?thesis by auto
  qed
qed

subsection \<open>The steps on the sequential catalogue\<close>

lemma extends_refl: "extends w w"
  by (simp add: extends_def)

lemma extends_trans: "extends w w1 \<Longrightarrow> extends w1 w2 \<Longrightarrow> extends w w2"
  by (auto simp add: extends_def intro: prefix_order.trans)

lemma extends_has_database: "extends w w' \<Longrightarrow> has_database w d \<Longrightarrow> has_database w' d"
  by (auto simp add: extends_def has_database_def dest: set_mono_prefix)

lemma extends_has_table: "extends w w' \<Longrightarrow> has_table w d t \<Longrightarrow> has_table w' d t"
  by (auto simp add: extends_def has_table_def prefix_def)

lemma extends_has_partition:
  "extends w w' \<Longrightarrow> has_partition w d t vs \<Longrightarrow> has_partition w' d t vs"
  by (auto simp add: extends_def has_partition_def prefix_def)

lemma glue_catalog_simps:
  "get_database glue_catalog n w =
     (if has_database w n then (Inr (), w) else (Inl EntityNotFoundException, w))"
  "create_database glue_catalog n w =
     (if has_database w n then (Inl AlreadyExistsException, w)
      else (Inr (), w\<lparr>databases := databases w @ [n]\<rparr>))"
  "get_table glue_catalog d t w =
     (if has_table w d t then (Inr (), w) else (Inl EntityNotFoundException, w))"
  "create_table glue_catalog d ti w =
     (if \<not> has_database w d then (Inl EntityNotFoundException, w)
      else if has_table w d (tbl_Name ti) then (Inl AlreadyExistsException, w)
      else (Inr (), w\<lparr>tables := tables w @ [((d, tbl_Name ti), ti)]\<rparr>))"
  "get_partition glue_catalog d t vs w =
     (if has_partition w d t vs then (Inr (), w) else (Inl EntityNotFoundException, w))"
  "create_partition glue_catalog d t inp w =
     (if \<not> has_table w d t then (Inl EntityNotFoundException, w)
      else if has_partition w d t (part_Values inp) then (Inl AlreadyExistsException, w)
      else (Inr (), w\<lparr>partitions := partitions w @ [((d, t, part_Values inp), inp)]\<rparr>))"
  by (simp_all add: glue_catalog_def)

lemma on_catalog_simps:
  "boto3_client_glue (on_catalog P) region = glue_catalog"
  "s3_get_object (on_catalog P) = s3_store"
  "environ (on_catalog P) = environ P"
  "urlparse (on_catalog P) = urlparse P"
  "gunzip (on_catalog P) = gunzip P"
  "utf8_decode (on_catalog P) = utf8_decode P"
  "time_time (on_catalog P) = time_time P"
  by (simp_all add: on_catalog_def)

lemma get_headers_world:
  "snd (get_headers (on_catalog P) base date w) = w"
  by (simp add: get_headers_def get_s3_file_def on_catalog_simps s3_store_def io_bind_def
        Let_def split: option.splits sum.splits)

lemma get_headers_objects:
  "objects w' = objects w \<Longrightarrow>
     fst (get_headers (on_catalog P) base date w') = fst (get_headers (on_catalog P) base date w)"
  by (simp add: get_headers_def get_s3_file_def on_catalog_simps s3_store_def io_bind_def
        Let_def split: option.splits sum.splits)

lemma get_headers_eq:
  "get_headers (on_catalog P) base date w = (fst (get_headers (on_catalog P) base date w), w)"
  using get_headers_world [of P base date w] by (cases "get_headers (on_catalog P) base date w") simp

lemma create_db_catalog:
  "create_db glue_catalog db w =
     (Inr (), if has_database w db then w else w\<lparr>databases := databases w @ [db]\<rparr>)"
  by (simp add: create_db_def glue_catalog_simps)

lemma create_glue_table_catalog:
  "create_glue_table (on_catalog P) glue_catalog db base date w =
     (if has_table w db ''hit_data'' then (Inr (), w)
      else case fst (get_headers (on_catalog P) base date w) of
             Inl e \<Rightarrow> (Inl e, w)
           | Inr headers \<Rightarrow>
               if \<not> has_database w db then (Inl EntityNotFoundException, w)
               else (Inr (),
                 w\<lparr>tables := tables w @
                   [((db, ''hit_data''),
                     \<lparr> tbl_Name = ''hit_data'',
                       tbl_StorageDescriptor =
                         storage_descriptor
                           (map (\<lambda>name. \<lparr> col_Type = ''string'', col_Name = name \<rparr>) headers)
                           (base @ ''/rawtsv/hit_data/''),
                       tbl_PartitionKeys = [\<lparr> col_Type = ''string'', col_Name = ''dt'' \<rparr>],
                       tbl_TableType = ''EXTERNAL_TABLE'',
                       tbl_Parameters = [],
                       tbl_LastAccessTime = time_time P w \<rparr>)]\<rparr>))"
proof -
  obtain r where g: "get_headers (on_catalog P) base date w = (r, w)"
    using get_headers_eq by blast
  show ?thesis
    by (simp add: create_glue_table_def does_table_exist_def glue_catalog_simps io_bind_def
          io_return_def on_catalog_simps g split: sum.splits)
qed

lemma create_lookup_table_catalog:
  "create_lookup_table (on_catalog P) glue_catalog db uri name w =
     (if has_table w db name then (Inr (), w)
      else if \<not> has_database w db then (Inl EntityNotFoundException, w)
      else (Inr (),
        w\<lparr>tables := tables w @
          [((db, name),
            \<lparr> tbl_Name = name,
              tbl_StorageDescriptor =
                storage_descriptor
                  [\<lparr> col_Type = ''string'', col_Name = ''id'' \<rparr>,
                   \<lparr> col_Type = ''string'', col_Name = ''value'' \<rparr>]
                  (uri @ ''/'' @ name @ ''/''),
              tbl_PartitionKeys = [],
              tbl_TableType = ''EXTERNAL_TABLE'',
              tbl_Parameters = [],
              tbl_LastAccessTime = time_time P w \<rparr>)]\<rparr>))"
  by (simp add: create_lookup_table_def does_table_exist_def glue_catalog_simps io_bind_def
        io_return_def on_catalog_simps)

lemma add_hitdata_partition_catalog:
  "add_hitdata_partition (on_catalog P) glue_catalog db base date w =
     (if has_partition w db ''hit_data'' [date] then (Inr (), w)
      else case fst (get_headers (on_catalog P) base date w) of
             Inl e \<Rightarrow> (Inl e, w)
           | Inr headers \<Rightarrow>
               if \<not> has_table w db ''hit_data'' then (Inl EntityNotFoundException, w)
               else (Inr (),
                 w\<lparr>partitions := partitions w @
                   [((db, ''hit_data'', [date]),
                     \<lparr> part_Values = [date],
                       part_StorageDescriptor =
                         storage_descriptor
                           (map (\<lambda>name. \<lparr> col_Type = ''string'', col_Name = name \<rparr>) headers)
                           (base @ ''/rawtsv/hit_data/dt='' @ date @ ''/''),
                       part_Parameters = [] \<rparr>)]\<rparr>))"
proof -
  obtain r where g: "get_headers (on_catalog P) base date w = (r, w)"
    using get_headers_eq by blast
  show ?thesis
    by (simp add: add_hitdata_partition_def does_partition_exist_def glue_catalog_simps
          io_bind_def io_return_def on_catalog_simps g split: sum.splits)
qed

subsection \<open>Running a step again\<close>

lemma extends_antisym:
  assumes "extends w w'" and "extends w' w"
  shows "w' = w"
proof -
  from assms have "databases w' = databases w" "tables w' = tables w"
      "partitions w' = partitions w" "objects w' = objects w"
    by (simp_all add: extends_def prefix_order.antisym)
  then show ?thesis by simp
qed

lemma idempotent_bind:
  assumes f: "idempotent f" and g: "idempotent g" and k: "keeps f g"
  shows "idempotent (io_bind f (\<lambda>u. g))"
  unfolding idempotent_def
proof
  fix w
  obtain r1 w1 where fw: "f w = (r1, w1)" by (cases "f w")
  from f fw have fw1: "f w1 = (r1, w1)" by (auto simp add: idempotent_def dest: spec [of _ w])
  show "io_bind f (\<lambda>u. g) (snd (io_bind f (\<lambda>u. g) w)) = io_bind f (\<lambda>u. g) w"
  proof (cases r1)
    case (Inl e)
    with fw fw1 show ?thesis by (simp add: io_bind_def)
  next
    case (Inr u)
    with fw1 have "settled f w1" by (simp add: settled_def)
    with k have "settled f (snd (g w1))" by (simp add: keeps_def)
    then have "io_bind f (\<lambda>u. g) (snd (g w1)) = g (snd (g w1))"
      by (simp add: settled_def io_bind_def)
    also from g have "\<dots> = g w1" by (simp add: idempotent_def)
    finally show ?thesis using fw Inr by (simp add: io_bind_def)
  qed
qed

lemma keeps_bind:
  assumes "keeps f g" and "keeps f h"
  shows "keeps f (io_bind g (\<lambda>u. h))"
  unfolding keeps_def
proof (intro allI impI)
  fix w
  assume s: "settled f w"
  obtain r1 w1 where gw: "g w = (r1, w1)" by (cases "g w")
  from assms(1) s gw have s1: "settled f w1" by (auto simp add: keeps_def dest: spec [of _ w])
  show "settled f (snd (io_bind g (\<lambda>u. h) w))"
  proof (cases r1)
    case (Inl e)
    with gw s1 show ?thesis by (simp add: io_bind_def)
  next
    case (Inr u)
    from assms(2) s1 have "settled f (snd (h w1))" by (simp add: keeps_def)
    with gw Inr show ?thesis by (simp add: io_bind_def)
  qed
qed

lemma idempotent_return: "idempotent (io_return ())"
  by (simp add: idempotent_def io_return_def)

lemma keeps_return: "keeps f (io_return ())"
  by (simp add: keeps_def io_return_def)

lemma tables_grow: "w\<lparr>tables := tables w @ [x]\<rparr> \<noteq> w"
proof
  assume "w\<lparr>tables := tables w @ [x]\<rparr> = w"
  then have "tables (w\<lparr>tables := tables w @ [x]\<rparr>) = tables w" by simp
  then show False by simp
qed

lemma databases_grow: "w\<lparr>databases := databases w @ [x]\<rparr> \<noteq> w"
proof
  assume "w\<lparr>databases := databases w @ [x]\<rparr> = w"
  then have "databases (w\<lparr>databases := databases w @ [x]\<rparr>) = databases w" by simp
  then show False by simp
qed

lemma partitions_grow: "w\<lparr>partitions := partitions w @ [x]\<rparr> \<noteq> w"
proof
  assume "w\<lparr>partitions := partitions w @ [x]\<rparr> = w"
  then have "partitions (w\<lparr>partitions := partitions w @ [x]\<rparr>) = partitions w" by simp
  then show False by simp
qed

lemma settled_create_db: "settled (create_db glue_catalog db) w = has_database w db"
  by (simp add: settled_def create_db_catalog databases_grow)

lemma settled_create_glue_table:
  "settled (create_glue_table (on_catalog P) glue_catalog db base date) w
     = has_table w db ''hit_data''"
  by (simp add: settled_def create_glue_table_catalog tables_grow split: sum.splits)

lemma settled_create_lookup_table:
  "settled (create_lookup_table (on_catalog P) glue_catalog db uri name) w = has_table w db name"
  by (simp add: settled_def create_lookup_table_catalog tables_grow)

lemma settled_add_hitdata_partition:
  "settled (add_hitdata_partition (on_catalog P) glue_catalog db base date) w
     = has_partition w db ''hit_data'' [date]"
  by (simp add: settled_def add_hitdata_partition_catalog partitions_grow split: sum.splits)

lemma extends_create_db: "extends w (snd (create_db glue_catalog db w))"
  by (simp add: create_db_catalog extends_def)

lemma extends_create_glue_table:
  "extends w (snd (create_glue_table (on_catalog P) glue_catalog db base date w))"
  by (simp add: create_glue_table_catalog extends_def split: sum.splits)

lemma extends_create_lookup_table:
  "extends w (snd (create_lookup_table (on_catalog P) glue_catalog db uri name w))"
  by (simp add: create_lookup_table_catalog extends_def)

lemma extends_add_hitdata_partition:
  "extends w (snd (add_hitdata_partition (on_catalog P) glue_catalog db base date w))"
  by (simp add: add_hitdata_partition_catalog extends_def split: sum.splits)

lemma extends_bind:
  assumes "\<And>w. extends w (snd (f w))" and "\<And>x w. extends w (snd (g x w))"
  shows "extends w (snd (io_bind f g w))"
proof (cases "f w")
  case (Pair r1 w1)
  with assms(1) [of w] have e1: "extends w w1" by simp
  show ?thesis
  proof (cases r1)
    case (Inl e)
    with Pair e1 show ?thesis by (simp add: io_bind_def)
  next
    case (Inr x)
    from assms(2) [of w1 x] e1 have "extends w (snd (g x w1))" by (rule extends_trans [rotated])
    with Pair Inr show ?thesis by (simp add: io_bind_def)
  qed
qed

lemma extends_for_lookup_names:
  "extends w (snd (for_lookup_names (on_catalog P) glue_catalog db uri names w))"
proof (induction names arbitrary: w)
  case Nil
  show ?case by (simp add: io_return_def extends_refl)
next
  case (Cons name rest)
  show ?case
    unfolding for_lookup_names.simps
    by (rule extends_bind) (rule extends_create_lookup_table, rule Cons.IH)
qed

lemma extends_create_lookup_tables:
  "extends w (snd (create_lookup_tables (on_catalog P) glue_catalog db uri w))"
  by (simp add: create_lookup_tables_def extends_for_lookup_names)

lemma idempotent_create_db: "idempotent (create_db glue_catalog db)"
  by (simp add: idempotent_def create_db_catalog has_database_def)

lemma idempotent_create_glue_table:
  "idempotent (create_glue_table (on_catalog P) glue_catalog db base date)"
  by (simp add: idempotent_def create_glue_table_catalog has_table_def split: sum.splits)

lemma idempotent_create_lookup_table:
  "idempotent (create_lookup_table (on_catalog P) glue_catalog db uri name)"
  by (simp add: idempotent_def create_lookup_table_catalog has_table_def)

lemma idempotent_add_hitdata_partition:
  "idempotent (add_hitdata_partition (on_catalog P) glue_catalog db base date)"
  by (simp add: idempotent_def add_hitdata_partition_catalog has_partition_def
        split: sum.splits)

lemma keeps_by_extends:
  assumes "\<And>w. settled f w = X w"
    and "\<And>w w'. extends w w' \<Longrightarrow> X w \<Longrightarrow> X w'"
    and "\<And>w. extends w (snd (g w))"
  shows "keeps f g"
  unfolding keeps_def using assms by blast

lemma keeps_create_db:
  assumes "\<And>w. extends w (snd (g w))"
  shows "keeps (create_db glue_catalog db) g"
  by (rule keeps_by_extends [where X = "\<lambda>w. has_database w db"])
     (rule settled_create_db, erule (1) extends_has_database, rule assms)

lemma keeps_create_glue_table:
  assumes "\<And>w. extends w (snd (g w))"
  shows "keeps (create_glue_table (on_catalog P) glue_catalog db base date) g"
  by (rule keeps_by_extends [where X = "\<lambda>w. has_table w db ''hit_data''"])
     (rule settled_create_glue_table, erule (1) extends_has_table, rule assms)

lemma keeps_create_lookup_table:
  assumes "\<And>w. extends w (snd (g w))"
  shows "keeps (create_lookup_table (on_catalog P) glue_catalog db uri name) g"
  by (rule keeps_by_extends [where X = "\<lambda>w. has_table w db name"])
     (rule settled_create_lookup_table, erule (1) extends_has_table, rule assms)

lemma idempotent_for_lookup_names:
  "idempotent (for_lookup_names (on_catalog P) glue_catalog db uri names)"
proof (induction names)
  case Nil
  show ?case by (simp add: idempotent_return)
next
  case (Cons name rest)
  show ?case
    unfolding for_lookup_names.simps
    by (rule idempotent_bind)
       (rule idempotent_create_lookup_table, rule Cons.IH,
        rule keeps_create_lookup_table, rule extends_for_lookup_names)
qed

lemma for_lookup_names_present:
  "\<forall>name \<in> set names. has_table w db name \<Longrightarrow>
     for_lookup_names (on_catalog P) glue_catalog db uri names w = (Inr (), w)"
  by (induction names) (simp_all add: io_return_def io_bind_def create_lookup_table_catalog)

lemma for_lookup_names_returned:
  "for_lookup_names (on_catalog P) glue_catalog db uri names w = (Inr (), w') \<Longrightarrow>
     \<forall>name \<in> set names. has_table w' db name"
proof (induction names arbitrary: w)
  case Nil
  show ?case by simp
next
  case (Cons name rest)
  from Cons.prems have
    "io_bind (create_lookup_table (on_catalog P) glue_catalog db uri name)
       (\<lambda>u. for_lookup_names (on_catalog P) glue_catalog db uri rest) w = (Inr (), w')"
    by simp
  then show ?case
  proof (cases rule: io_bind_cases)
    case (raised e)
    then show ?thesis by simp
  next
    case (returned x w1)
    from returned(1) have "has_table w1 db name"
      by (auto simp add: create_lookup_table_catalog has_table_def split: if_splits)
    moreover from returned(2) extends_for_lookup_names [of w1 P db uri rest]
    have "extends w1 w'" by simp
    ultimately have "has_table w' db name" by (rule extends_has_table [rotated])
    with Cons.IH [OF returned(2)] show ?thesis by simp
  qed
qed

lemma settled_for_lookup_names:
  "settled (for_lookup_names (on_catalog P) glue_catalog db uri names) w
     = (\<forall>name \<in> set names. has_table w db name)"
  unfolding settled_def
  using for_lookup_names_present [of names w db P uri]
    for_lookup_names_returned [of P db uri names w w]
  by blast

lemma keeps_create_lookup_tables:
  assumes "\<And>w. extends w (snd (g w))"
  shows "keeps (create_lookup_tables (on_catalog P) glue_catalog db uri) g"
  unfolding create_lookup_tables_def
  by (rule keeps_by_extends
        [where X = "\<lambda>w. \<forall>name \<in> set generic_lookup_types. has_table w db name"])
     (rule settled_for_lookup_names, blast intro: extends_has_table, rule assms)

lemma idempotent_steps:
  "idempotent
     (io_bind (create_db glue_catalog db) (\<lambda>u1.
      io_bind (create_glue_table (on_catalog P) glue_catalog db base date) (\<lambda>u2.
      io_bind (create_lookup_tables (on_catalog P) glue_catalog db uri) (\<lambda>u3.
      add_hitdata_partition (on_catalog P) glue_catalog db base date))))"
proof -
  let ?s2 = "create_glue_table (on_catalog P) glue_catalog db base date"
  let ?s3 = "create_lookup_tables (on_catalog P) glue_catalog db uri"
  let ?s4 = "add_hitdata_partition (on_catalog P) glue_catalog db base date"
  have e34: "extends w (snd (io_bind ?s3 (\<lambda>u3. ?s4) w))" for w
    by (rule extends_bind) (rule extends_create_lookup_tables, rule extends_add_hitdata_partition)
  have e234: "extends w (snd (io_bind ?s2 (\<lambda>u2. io_bind ?s3 (\<lambda>u3. ?s4)) w))" for w
    by (rule extends_bind) (rule extends_create_glue_table, rule e34)
  have i3: "idempotent ?s3"
    by (simp add: create_lookup_tables_def idempotent_for_lookup_names)
  have i34: "idempotent (io_bind ?s3 (\<lambda>u3. ?s4))"
    by (rule idempotent_bind)
       (rule i3, rule idempotent_add_hitdata_partition,
        rule keeps_create_lookup_tables, rule extends_add_hitdata_partition)
  have i234: "idempotent (io_bind ?s2 (\<lambda>u2. io_bind ?s3 (\<lambda>u3. ?s4)))"
    by (rule idempotent_bind)
       (rule idempotent_create_glue_table, rule i34, rule keeps_create_glue_table, rule e34)
  show ?thesis
    by (rule idempotent_bind)
       (rule idempotent_create_db, rule i234, rule keeps_create_db, rule e234)
qed

lemma handler_shape:
  "(\<exists>e. \<forall>s. handler P event s = (Inl e, s)) \<or>
   (\<exists>report_base lookup_uri partition_date glue_database region.
      event ''reportBase'' = Some report_base \<and>
      event ''lookupURI'' = Some lookup_uri \<and>
      event ''reportDate'' = Some partition_date \<and>
      environ P ''DB_NAME'' = Some glue_database \<and>
      environ P ''AWS_REGION'' = Some region \<and>
      handler P event =
        io_bind (create_db (boto3_client_glue P region) glue_database) (\<lambda>u1.
        io_bind (create_glue_table P (boto3_client_glue P region) glue_database
                   (py_rstrip (\<lambda>c. c = CHR ''/'') report_base) partition_date) (\<lambda>u2.
        io_bind (create_lookup_tables P (boto3_client_glue P region) glue_database
                   (py_rstrip (\<lambda>c. c = CHR ''/'') lookup_uri)) (\<lambda>u3.
        add_hitdata_partition P (boto3_client_glue P region) glue_database
          (py_rstrip (\<lambda>c. c = CHR ''/'') report_base) partition_date))))"
proof (cases "event ''reportBase''")
  case None
  then show ?thesis by (simp add: handler_def)
next
  case rb: (Some report_base)
  show ?thesis
  proof (cases "event ''lookupURI''")
    case None
    with rb show ?thesis by (simp add: handler_def)
  next
    case lu: (Some lookup_uri)
    show ?thesis
    proof (cases "event ''reportDate''")
      case None
      with rb lu show ?thesis by (simp add: handler_def)
    next
      case dt: (Some partition_date)
      show ?thesis
      proof (cases "environ P ''DB_NAME''")
        case None
        with rb lu dt show ?thesis by (simp add: handler_def)
      next
        case db: (Some glue_database)
        show ?thesis
        proof (cases "environ P ''AWS_REGION''")
          case None
          with rb lu dt db show ?thesis by (simp add: handler_def create_glue_client_def)
        next
          case rg: (Some region)
          with rb lu dt db show ?thesis
            by (simp add: handler_def create_glue_client_def Let_def fun_eq_iff)
        qed
      qed
    qed
  qed
qed

lemma idempotent_handler: "idempotent (handler (on_catalog P) event)"
  using handler_shape [of "on_catalog P" event]
proof (elim disjE exE conjE)
  fix e
  assume "\<forall>s. handler (on_catalog P) event s = (Inl e, s)"
  then show ?thesis by (simp add: idempotent_def)
next
  fix report_base lookup_uri partition_date glue_database region
  assume "handler (on_catalog P) event =
        io_bind (create_db (boto3_client_glue (on_catalog P) region) glue_database) (\<lambda>u1.
        io_bind (create_glue_table (on_catalog P) (boto3_client_glue (on_catalog P) region)
                   glue_database (py_rstrip (\<lambda>c. c = CHR ''/'') report_base) partition_date)
          (\<lambda>u2.
        io_bind (create_lookup_tables (on_catalog P) (boto3_client_glue (on_catalog P) region)
                   glue_database (py_rstrip (\<lambda>c. c = CHR ''/'') lookup_uri)) (\<lambda>u3.
        add_hitdata_partition (on_catalog P) (boto3_client_glue (on_catalog P) region)
          glue_database (py_rstrip (\<lambda>c. c = CHR ''/'') report_base) partition_date)))"
  then show ?thesis
    by (simp only: on_catalog_simps idempotent_steps)
qed

subsection \<open>Sample runs\<close>

lemma handler_eq:
  assumes "event ''reportBase'' = Some report_base"
    and "event ''lookupURI'' = Some lookup_uri"
    and "event ''reportDate'' = Some partition_date"
    and "environ P ''DB_NAME'' = Some glue_database"
    and "environ P ''AWS_REGION'' = Some region"
  shows "handler P event =
        io_bind (create_db (boto3_client_glue P region) glue_database) (\<lambda>u1.
        io_bind (create_glue_table P (boto3_client_glue P region) glue_database
                   (py_rstrip (\<lambda>c. c = CHR ''/'') report_base) partition_date) (\<lambda>u2.
        io_bind (create_lookup_tables P (boto3_client_glue P region) glue_database
                   (py_rstrip (\<lambda>c. c = CHR ''/'') lookup_uri)) (\<lambda>u3.
        add_hitdata_partition P (boto3_client_glue P region) glue_database
          (py_rstrip (\<lambda>c. c = CHR ''/'') report_base) partition_date)))"
  using assms by (simp add: handler_def create_glue_client_def Let_def fun_eq_iff)

lemma sample_event_simps:
  "sample_event ''reportBase'' = Some ''s3://bucket/feed''"
  "sample_event ''lookupURI'' = Some ''s3://bucket/lookup''"
  "sample_event ''reportDate'' = Some ''2024-03-01''"
  by (simp_all add: sample_event_def)

lemma sample_environ:
  "environ sample_platform ''DB_NAME'' = Some ''adobe''"
  "environ sample_platform ''AWS_REGION'' = Some ''us-east-1''"
  by (simp_all add: sample_platform_def)

lemma sample_uris:
  "py_rstrip (\<lambda>c. c = CHR ''/'') ''s3://bucket/feed'' = ''s3://bucket/feed''"
  "py_rstrip (\<lambda>c. c = CHR ''/'') ''s3://bucket/lookup'' = ''s3://bucket/lookup''"
  by (simp_all add: py_rstrip_def)

lemma sample_world_empty:
  "\<not> has_database sample_world d" "\<not> has_table sample_world d t"
  "\<not> has_partition sample_world d t vs"
  by (simp_all add: sample_world_def has_database_def has_table_def has_partition_def)

lemma denied_run:
  "handler (traced_platform denied_platform) sample_event (sample_world, [])
     = (Inl AccessDeniedException,
        (sample_world\<lparr>databases := [''adobe'']\<rparr>,
         [(GetDatabase ''adobe'', Inl EntityNotFoundException),
          (CreateDatabase ''adobe'', Inr ()),
          (GetTable ''adobe'' ''hit_data'', Inl AccessDeniedException)]))"
proof -
  let ?c = "glue_catalog\<lparr>get_table := (\<lambda>d t w. (Inl AccessDeniedException, w))\<rparr>"
  have env: "environ (traced_platform denied_platform) ''DB_NAME'' = Some ''adobe''"
      "environ (traced_platform denied_platform) ''AWS_REGION'' = Some ''us-east-1''"
    by (simp_all add: traced_platform_simps denied_platform_def sample_environ)
  have c: "boto3_client_glue (traced_platform denied_platform) ''us-east-1'' = traced ?c"
    by (simp add: traced_platform_simps denied_platform_def)
  have s1: "create_db (traced ?c) ''adobe'' (sample_world, [])
      = (Inr (), (sample_world\<lparr>databases := [''adobe'']\<rparr>,
           [(GetDatabase ''adobe'', Inl EntityNotFoundException),
            (CreateDatabase ''adobe'', Inr ())]))"
    by (simp add: create_db_def traced_simps log_call_run glue_catalog_simps
          sample_world_empty) (simp add: sample_world_def)
  have s2: "create_glue_table (traced_platform denied_platform) (traced ?c) ''adobe'' base date
        (w, tr)
      = (Inl AccessDeniedException, (w, tr @ [(GetTable ''adobe'' ''hit_data'',
           Inl AccessDeniedException)]))" for base date w tr
    by (simp add: create_glue_table_def does_table_exist_def io_bind_def traced_simps
          log_call_run)
  show ?thesis
    by (simp add: handler_eq [OF sample_event_simps env] c io_bind_def s1 s2)
qed

lemma rival_create_db:
  "create_db (with_rival glue_catalog) ''adobe'' sample_world
     = (Inl AlreadyExistsException, sample_world\<lparr>databases := [''adobe'']\<rparr>)"
  by (simp add: create_db_def with_rival_def glue_catalog_simps sample_world_empty)
     (simp add: sample_world_def has_database_def)

lemma rival_run:
  "handler (traced_platform rival_platform) sample_event (sample_world, [])
     = (Inl AlreadyExistsException,
        (sample_world\<lparr>databases := [''adobe'']\<rparr>,
         [(GetDatabase ''adobe'', Inl EntityNotFoundException),
          (CreateDatabase ''adobe'', Inl AlreadyExistsException)]))"
proof -
  have env: "environ (traced_platform rival_platform) ''DB_NAME'' = Some ''adobe''"
      "environ (traced_platform rival_platform) ''AWS_REGION'' = Some ''us-east-1''"
    by (simp_all add: traced_platform_simps rival_platform_def sample_environ)
  have c: "boto3_client_glue (traced_platform rival_platform) ''us-east-1''
      = traced (with_rival glue_catalog)"
    by (simp add: traced_platform_simps rival_platform_def)
  have s1: "create_db (traced (with_rival glue_catalog)) ''adobe'' (sample_world, [])
      = (Inl AlreadyExistsException, (sample_world\<lparr>databases := [''adobe'']\<rparr>,
           [(GetDatabase ''adobe'', Inl EntityNotFoundException),
            (CreateDatabase ''adobe'', Inl AlreadyExistsException)]))"
    by (simp add: create_db_def traced_simps log_call_run with_rival_def glue_catalog_simps
          sample_world_empty) (simp add: sample_world_def has_database_def)
  show ?thesis
    by (simp add: handler_eq [OF sample_event_simps env] c io_bind_def s1)
qed

lemma rival_run_plain:
  "handler rival_platform sample_event sample_world
     = (Inl AlreadyExistsException, sample_world\<lparr>databases := [''adobe'']\<rparr>)"
proof -
  have env: "environ rival_platform ''DB_NAME'' = Some ''adobe''"
      "environ rival_platform ''AWS_REGION'' = Some ''us-east-1''"
    by (simp_all add: rival_platform_def sample_environ)
  have c: "boto3_client_glue rival_platform ''us-east-1'' = with_rival glue_catalog"
    by (simp add: rival_platform_def)
  show ?thesis
    by (simp add: handler_eq [OF sample_event_simps env] c io_bind_def rival_create_db)
qed

subsection \<open>A recorded run is the run\<close>

text \<open>
  Recording the calls changes neither the result of a run nor what it does to the state.
\<close>

lemma follows_log_call: "follows (log_call k m) m"
  by (simp add: follows_def log_call_run)

lemma follows_return: "follows (io_return x) (io_return x)"
  by (simp add: follows_def io_return_def)

lemma follows_bind:
  assumes "follows m' m" and "\<And>x. follows (f' x) (f x)"
  shows "follows (io_bind m' f') (io_bind m f)"
  unfolding follows_def
proof (intro allI)
  fix s tr
  obtain r s1 where ms: "m s = (r, s1)" by (cases "m s")
  obtain r' s1' tr1 where ms': "m' (s, tr) = (r', (s1', tr1))" by (cases "m' (s, tr)") auto
  from assms(1) have
    "fst (m' (s, tr)) = fst (m s) \<and> fst (snd (m' (s, tr))) = snd (m s)"
    by (simp add: follows_def)
  with ms ms' have eq: "r' = r" "s1' = s1" by simp_all
  show "fst (io_bind m' f' (s, tr)) = fst (io_bind m f s) \<and>
        fst (snd (io_bind m' f' (s, tr))) = snd (io_bind m f s)"
  proof (cases r)
    case (Inl e)
    with ms ms' eq show ?thesis by (simp add: io_bind_def)
  next
    case (Inr x)
    from assms(2) [of x] have
      "fst (f' x (s1, tr1)) = fst (f x s1) \<and> fst (snd (f' x (s1, tr1))) = snd (f x s1)"
      by (simp add: follows_def)
    with ms ms' eq Inr show ?thesis by (simp add: io_bind_def)
  qed
qed

lemma follows_create_db: "follows (create_db (traced c) db) (create_db c db)"
  by (simp add: follows_def create_db_def traced_simps log_call_run
        split: prod.splits sum.splits)

lemma follows_does_table_exist:
  "follows (does_table_exist (traced c) d t) (does_table_exist c d t)"
  by (simp add: follows_def does_table_exist_traced)

lemma follows_does_partition_exist:
  "follows (does_partition_exist (traced c) d t vs) (does_partition_exist c d t vs)"
  by (simp add: follows_def does_partition_exist_traced)

lemma follows_get_headers:
  "follows (get_headers (traced_platform P) base date) (get_headers P base date)"
  by (simp add: follows_def get_headers_traced)

lemma time_time_traced: "time_time (traced_platform P) (s, tr) = time_time P s"
  by (simp add: traced_platform_def)

lemma follows_create_glue_table:
  "follows (create_glue_table (traced_platform P) (traced c) db base date)
     (create_glue_table P c db base date)"
  unfolding create_glue_table_def
proof (rule follows_bind [OF follows_does_table_exist])
  fix found
  show "follows
     (if found then io_return ()
      else io_bind (get_headers (traced_platform P) base date) (\<lambda>headers s.
        create_table (traced c) db
          \<lparr> tbl_Name = ''hit_data'',
            tbl_StorageDescriptor =
              storage_descriptor
                (map (\<lambda>name. \<lparr> col_Type = ''string'', col_Name = name \<rparr>) headers)
                (base @ ''/rawtsv/hit_data/''),
            tbl_PartitionKeys = [\<lparr> col_Type = ''string'', col_Name = ''dt'' \<rparr>],
            tbl_TableType = ''EXTERNAL_TABLE'',
            tbl_Parameters = [],
            tbl_LastAccessTime = time_time (traced_platform P) s \<rparr> s))
     (if found then io_return ()
      else io_bind (get_headers P base date) (\<lambda>headers s.
        create_table c db
          \<lparr> tbl_Name = ''hit_data'',
            tbl_StorageDescriptor =
              storage_descriptor
                (map (\<lambda>name. \<lparr> col_Type = ''string'', col_Name = name \<rparr>) headers)
                (base @ ''/rawtsv/hit_data/''),
            tbl_PartitionKeys = [\<lparr> col_Type = ''string'', col_Name = ''dt'' \<rparr>],
            tbl_TableType = ''EXTERNAL_TABLE'',
            tbl_Parameters = [],
            tbl_LastAccessTime = time_time P s \<rparr> s))"
  proof (cases found)
    case True
    then show ?thesis by (simp add: follows_return)
  next
    case False
    then show ?thesis
      by (simp only: if_False)
         (rule follows_bind [OF follows_get_headers],
          simp add: follows_def traced_simps log_call_run time_time_traced)
  qed
qed

lemma follows_create_lookup_table:
  "follows (create_lookup_table (traced_platform P) (traced c) db uri name)
     (create_lookup_table P c db uri name)"
  unfolding create_lookup_table_def
proof (rule follows_bind [OF follows_does_table_exist])
  fix found
  show "follows
     (if found then io_return ()
      else (\<lambda>s.
        create_table (traced c) db
          \<lparr> tbl_Name = name,
            tbl_StorageDescriptor =
              storage_descriptor
                [\<lparr> col_Type = ''string'', col_Name = ''id'' \<rparr>,
                 \<lparr> col_Type = ''string'', col_Name = ''value'' \<rparr>]
                (uri @ ''/'' @ name @ ''/''),
            tbl_PartitionKeys = [],
            tbl_TableType = ''EXTERNAL_TABLE'',
            tbl_Parameters = [],
            tbl_LastAccessTime = time_time (traced_platform P) s \<rparr> s))
     (if found then io_return ()
      else (\<lambda>s.
        create_table c db
          \<lparr> tbl_Name = name,
            tbl_StorageDescriptor =
              storage_descriptor
                [\<lparr> col_Type = ''string'', col_Name = ''id'' \<rparr>,
                 \<lparr> col_Type = ''string'', col_Name = ''value'' \<rparr>]
                (uri @ ''/'' @ name @ ''/''),
            tbl_PartitionKeys = [],
            tbl_TableType = ''EXTERNAL_TABLE'',
            tbl_Parameters = [],
            tbl_LastAccessTime = time_time P s \<rparr> s))"
    by (cases found)
       (simp_all add: follows_return,
        simp add: follows_def traced_simps log_call_run time_time_traced)
qed

lemma follows_for_lookup_names:
  "follows (for_lookup_names (traced_platform P) (traced c) db uri names)
     (for_lookup_names P c db uri names)"
proof (induction names)
  case Nil
  show ?case by (simp add: follows_return)
next
  case (Cons name rest)
  show ?case
    unfolding for_lookup_names.simps
    by (rule follows_bind [OF follows_create_lookup_table]) (rule Cons.IH)
qed

lemma follows_create_lookup_tables:
  "follows (create_lookup_tables (traced_platform P) (traced c) db uri)
     (create_lookup_tables P c db uri)"
  by (simp add: create_lookup_tables_def follows_for_lookup_names)

lemma follows_add_hitdata_partition:
  "follows (add_hitdata_partition (traced_platform P) (traced c) db base date)
     (add_hitdata_partition P c db base date)"
  unfolding add_hitdata_partition_def
proof (rule follows_bind [OF follows_does_partition_exist])
  fix found
  show "follows
     (if found then io_return ()
      else io_bind (get_headers (traced_platform P) base date) (\<lambda>headers.
        create_partition (traced c) db ''hit_data''
          \<lparr> part_Values = [date],
            part_StorageDescriptor =
              storage_descriptor
                (map (\<lambda>name. \<lparr> col_Type = ''string'', col_Name = name \<rparr>) headers)
                (base @ ''/rawtsv/hit_data/dt='' @ date @ ''/''),
            part_Parameters = [] \<rparr>))
     (if found then io_return ()
      else io_bind (get_headers P base date) (\<lambda>headers.
        create_partition c db ''hit_data''
          \<lparr> part_Values = [date],
            part_StorageDescriptor =
              storage_descriptor
                (map (\<lambda>name. \<lparr> col_Type = ''string'', col_Name = name \<rparr>) headers)
                (base @ ''/rawtsv/hit_data/dt='' @ date @ ''/''),
            part_Parameters = [] \<rparr>))"
  proof (cases found)
    case True
    then show ?thesis by (simp add: follows_return)
  next
    case False
    then show ?thesis
      by (simp only: if_False)
         (rule follows_bind [OF follows_get_headers],
          simp add: traced_simps follows_log_call)
  qed
qed

lemma follows_handler: "follows (handler (traced_platform P) event) (handler P event)"
proof (cases "event ''reportBase''")
  case None
  then show ?thesis by (simp add: follows_def handler_def)
next
  case rb: (Some report_base)
  show ?thesis
  proof (cases "event ''lookupURI''")
    case None
    with rb show ?thesis by (simp add: follows_def handler_def)
  next
    case lu: (Some lookup_uri)
    show ?thesis
    proof (cases "event ''reportDate''")
      case None
      with rb lu show ?thesis by (simp add: follows_def handler_def)
    next
      case dt: (Some partition_date)
      show ?thesis
      proof (cases "environ P ''DB_NAME''")
        case None
        with rb lu dt show ?thesis
          by (simp add: follows_def handler_def traced_platform_simps)
      next
        case db: (Some glue_database)
        show ?thesis
        proof (cases "environ P ''AWS_REGION''")
          case None
          with rb lu dt db show ?thesis
            by (simp add: follows_def handler_def create_glue_client_def
                  traced_platform_simps)
        next
          case rg: (Some region)
          from db rg have env': "environ (traced_platform P) ''DB_NAME'' = Some glue_database"
              "environ (traced_platform P) ''AWS_REGION'' = Some region"
            by (simp_all add: traced_platform_simps)
          show ?thesis
            by (simp only: handler_eq [OF rb lu dt db rg] handler_eq [OF rb lu dt env']
                  traced_platform_simps)
               (intro follows_bind follows_create_db follows_create_glue_table
                  follows_create_lookup_tables follows_add_hitdata_partition)
        qed
      qed
    qed
  qed
qed

lemma handler_traced_plain:
  assumes "handler (traced_platform P) event (s, tr) = (r, (s', tr'))"
  shows "handler P event s = (r, s')"
proof -
  from follows_handler [of P event] have
    "fst (handler (traced_platform P) event (s, tr)) = fst (handler P event s) \<and>
     fst (snd (handler (traced_platform P) event (s, tr))) = snd (handler P event s)"
    by (simp add: follows_def)
  with assms show ?thesis by (simp add: prod_eq_iff)
qed

subsection \<open>An already-exists answer to a create call\<close>

text \<open>
  C1 (amended). For every create-if-absent step (database, base table, lookup table,
  partition): if the create call is reached and the catalogue rejects it with an
  already-exists error, the rejection is not caught. It is the last call of the
  invocation, and the invocation ends with the already-exists error.
\<close>

theorem already_exists_on_create_is_raised:
  assumes "handler (traced_platform P) event (s, []) = (r, (s', tr))"
    and "tr = before @ (k, Inl AlreadyExistsException) # after"
    and "is_create k"
  shows "after = [] \<and> r = Inl AlreadyExistsException \<and>
    handler P event s = (Inl AlreadyExistsException, s')"
proof -
  from handler_traced [OF assms(1)] have "outcome_ok r tr" by (simp add: steps_from_def)
  with assms(2) have "outcome_ok r (before @ (k, Inl AlreadyExistsException) # after)"
    by simp
  moreover from assms(3) have "\<not> benign (k, Inl AlreadyExistsException)"
    by (simp add: benign_def)
  ultimately have a: "after = [] \<and> r = Inl AlreadyExistsException"
    using outcome_ok_split by fastforce
  with handler_traced_plain [OF assms(1)] show ?thesis by simp
qed

theorem already_exists_on_create_witness:
  "handler (traced_platform rival_platform) sample_event (sample_world, [])
     = (Inl AlreadyExistsException,
        (sample_world\<lparr>databases := [''adobe'']\<rparr>,
         [(GetDatabase ''adobe'', Inl EntityNotFoundException)] @
         (CreateDatabase ''adobe'', Inl AlreadyExistsException) # [])) \<and>
   is_create (CreateDatabase ''adobe'')"
proof -
  have d: "[(GetDatabase ''adobe'', Inl EntityNotFoundException),
            (CreateDatabase ''adobe'', Inl AlreadyExistsException)]
      = [(GetDatabase ''adobe'', Inl EntityNotFoundException)] @
        (CreateDatabase ''adobe'', Inl AlreadyExistsException) # []"
    by simp
  have c: "is_create (CreateDatabase ''adobe'')" by simp
  from already_exists_on_create_is_raised [OF rival_run d c] rival_run c
  show ?thesis by simp
qed

text \<open>
  The claim as the specification words it fails: when a rival creates the database
  between the check and the create call, the database step raises the already-exists
  error and so does the handler.
\<close>

theorem already_exists_counterexample:
  "create_db (with_rival glue_catalog) ''adobe'' sample_world
     = (Inl AlreadyExistsException, sample_world\<lparr>databases := [''adobe'']\<rparr>) \<and>
   handler rival_platform sample_event sample_world
     = (Inl AlreadyExistsException, sample_world\<lparr>databases := [''adobe'']\<rparr>)"
  using rival_create_db rival_run_plain by (rule conjI)

subsection \<open>The existence checks\<close>

text \<open>
  C3. Each existence predicate (table, partition) returns false exactly when the lookup
  raises the not-found error, returns true exactly when the lookup returns, and raises
  every other error of the lookup as it is, never the not-found error. In an invocation,
  an existence check that raises an error other than not-found is the last call: the
  invocation ends with that error and no create call follows.
\<close>

theorem existence_checks_tell_not_found_from_errors:
  "(fst (does_table_exist c d t s) = Inr False
      \<longleftrightarrow> fst (get_table c d t s) = Inl EntityNotFoundException) \<and>
   (fst (does_table_exist c d t s) = Inr True \<longleftrightarrow> fst (get_table c d t s) = Inr ()) \<and>
   (\<forall>e. e \<noteq> EntityNotFoundException \<longrightarrow>
      (fst (does_table_exist c d t s) = Inl e \<longleftrightarrow> fst (get_table c d t s) = Inl e)) \<and>
   fst (does_table_exist c d t s) \<noteq> Inl EntityNotFoundException \<and>
   snd (does_table_exist c d t s) = snd (get_table c d t s) \<and>
   (fst (does_partition_exist c d t vs s) = Inr False
      \<longleftrightarrow> fst (get_partition c d t vs s) = Inl EntityNotFoundException) \<and>
   (fst (does_partition_exist c d t vs s) = Inr True
      \<longleftrightarrow> fst (get_partition c d t vs s) = Inr ()) \<and>
   (\<forall>e. e \<noteq> EntityNotFoundException \<longrightarrow>
      (fst (does_partition_exist c d t vs s) = Inl e
         \<longleftrightarrow> fst (get_partition c d t vs s) = Inl e)) \<and>
   fst (does_partition_exist c d t vs s) \<noteq> Inl EntityNotFoundException \<and>
   snd (does_partition_exist c d t vs s) = snd (get_partition c d t vs s) \<and>
   (handler (traced_platform P) event (s0, []) = (r, (s', tr)) \<longrightarrow>
    tr = before @ (k, Inl e') # after \<longrightarrow> \<not> is_create k \<longrightarrow>
    e' \<noteq> EntityNotFoundException \<longrightarrow>
      after = [] \<and> r = Inl e' \<and> handler P event s0 = (Inl e', s'))"
proof -
  have t: "(fst (does_table_exist c d t s) = Inr False
      \<longleftrightarrow> fst (get_table c d t s) = Inl EntityNotFoundException) \<and>
   (fst (does_table_exist c d t s) = Inr True \<longleftrightarrow> fst (get_table c d t s) = Inr ()) \<and>
   (\<forall>e. e \<noteq> EntityNotFoundException \<longrightarrow>
      (fst (does_table_exist c d t s) = Inl e \<longleftrightarrow> fst (get_table c d t s) = Inl e)) \<and>
   fst (does_table_exist c d t s) \<noteq> Inl EntityNotFoundException \<and>
   snd (does_table_exist c d t s) = snd (get_table c d t s)"
    by (cases "get_table c d t s"; cases "fst (get_table c d t s)")
       (auto simp add: does_table_exist_def)
  have p: "(fst (does_partition_exist c d t vs s) = Inr False
      \<longleftrightarrow> fst (get_partition c d t vs s) = Inl EntityNotFoundException) \<and>
   (fst (does_partition_exist c d t vs s) = Inr True
      \<longleftrightarrow> fst (get_partition c d t vs s) = Inr ()) \<and>
   (\<forall>e. e \<noteq> EntityNotFoundException \<longrightarrow>
      (fst (does_partition_exist c d t vs s) = Inl e
         \<longleftrightarrow> fst (get_partition c d t vs s) = Inl e)) \<and>
   fst (does_partition_exist c d t vs s) \<noteq> Inl EntityNotFoundException \<and>
   snd (does_partition_exist c d t vs s) = snd (get_partition c d t vs s)"
    by (cases "get_partition c d t vs s"; cases "fst (get_partition c d t vs s)")
       (auto simp add: does_partition_exist_def)
  have h: "after = [] \<and> r = Inl e' \<and> handler P event s0 = (Inl e', s')"
    if run: "handler (traced_platform P) event (s0, []) = (r, (s', tr))"
      and tr: "tr = before @ (k, Inl e') # after"
      and k: "\<not> is_create k" and e: "e' \<noteq> EntityNotFoundException"
  proof -
    from handler_traced [OF run] have "outcome_ok r tr" by (simp add: steps_from_def)
    with tr have "outcome_ok r (before @ (k, Inl e') # after)" by simp
    moreover from e have "\<not> benign (k, Inl e')" by (simp add: benign_def)
    ultimately have "after = [] \<and> r = Inl e'" using outcome_ok_split by fastforce
    with handler_traced_plain [OF run] show ?thesis by simp
  qed
  from t p h show ?thesis by blast
qed

theorem existence_checks_witness:
  "handler (traced_platform denied_platform) sample_event (sample_world, [])
     = (Inl AccessDeniedException,
        (sample_world\<lparr>databases := [''adobe'']\<rparr>,
         [(GetDatabase ''adobe'', Inl EntityNotFoundException),
          (CreateDatabase ''adobe'', Inr ())] @
         (GetTable ''adobe'' ''hit_data'', Inl AccessDeniedException) # [])) \<and>
   fst (does_table_exist glue_catalog ''adobe'' ''hit_data'' sample_world) = Inr False \<and>
   fst (get_table glue_catalog ''adobe'' ''hit_data'' sample_world)
     = Inl EntityNotFoundException"
proof -
  have a: "fst (get_table glue_catalog ''adobe'' ''hit_data'' sample_world)
     = Inl EntityNotFoundException"
    by (simp add: glue_catalog_simps sample_world_empty)
  from existence_checks_tell_not_found_from_errors
    [of glue_catalog "''adobe''" "''hit_data''" sample_world "[]" denied_platform sample_event
        sample_world "Inl AccessDeniedException" "sample_world\<lparr>databases := [''adobe'']\<rparr>"
        "[(GetDatabase ''adobe'', Inl EntityNotFoundException),
          (CreateDatabase ''adobe'', Inr ()),
          (GetTable ''adobe'' ''hit_data'', Inl AccessDeniedException)]"
        "[(GetDatabase ''adobe'', Inl EntityNotFoundException),
          (CreateDatabase ''adobe'', Inr ())]"
        "GetTable ''adobe'' ''hit_data''" AccessDeniedException "[]"]
    a denied_run
  show ?thesis by simp
qed

subsection \<open>Runs on the sequential catalogue\<close>

lemma map_of_extends:
  assumes "extends w w'" and "has_table w d t"
  shows "map_of (tables w') (d, t) = map_of (tables w) (d, t)"
proof -
  from assms(1) obtain zs where z: "tables w' = tables w @ zs"
    by (auto simp add: extends_def prefix_def)
  from assms(2) obtain v where "map_of (tables w) (d, t) = Some v"
    by (cases "map_of (tables w) (d, t)")
       (auto simp add: has_table_def map_of_eq_None_iff)
  with z show ?thesis by (simp add: map_add_Some_iff)
qed

lemma extends_handler: "extends w (snd (handler (on_catalog P) event w))"
  using handler_shape [of "on_catalog P" event]
proof (elim disjE exE conjE)
  fix e
  assume "\<forall>s. handler (on_catalog P) event s = (Inl e, s)"
  then show ?thesis by (simp add: extends_refl)
next
  fix report_base lookup_uri partition_date glue_database region
  assume "handler (on_catalog P) event =
        io_bind (create_db (boto3_client_glue (on_catalog P) region) glue_database) (\<lambda>u1.
        io_bind (create_glue_table (on_catalog P) (boto3_client_glue (on_catalog P) region)
                   glue_database (py_rstrip (\<lambda>c. c = CHR ''/'') report_base) partition_date)
          (\<lambda>u2.
        io_bind (create_lookup_tables (on_catalog P) (boto3_client_glue (on_catalog P) region)
                   glue_database (py_rstrip (\<lambda>c. c = CHR ''/'') lookup_uri)) (\<lambda>u3.
        add_hitdata_partition (on_catalog P) (boto3_client_glue (on_catalog P) region)
          glue_database (py_rstrip (\<lambda>c. c = CHR ''/'') report_base) partition_date)))"
  then show ?thesis
    by (simp only: on_catalog_simps)
       (intro extends_bind extends_create_db extends_create_glue_table
          extends_create_lookup_tables extends_add_hitdata_partition)
qed

text \<open>On the sequential catalogue a run returns as soon as the header file can be read.\<close>

lemma for_lookup_names_progress:
  "has_database w db \<Longrightarrow>
     fst (for_lookup_names (on_catalog P) glue_catalog db uri names w) = Inr ()"
proof (induction names arbitrary: w)
  case Nil
  show ?case by (simp add: io_return_def)
next
  case (Cons name rest)
  obtain r w1 where r: "create_lookup_table (on_catalog P) glue_catalog db uri name w = (r, w1)"
    by (cases "create_lookup_table (on_catalog P) glue_catalog db uri name w")
  with Cons.prems have r1: "r = Inr ()"
    by (auto simp add: create_lookup_table_catalog split: if_splits)
  from r extends_create_lookup_table [of w P db uri name] have "extends w w1" by simp
  from this Cons.prems have "has_database w1 db" by (rule extends_has_database)
  from Cons.IH [OF this] r r1 show ?case by (simp add: io_bind_def)
qed

lemma steps_progress:
  assumes "fst (get_headers (on_catalog P) base date w) = Inr headers"
  shows "fst (io_bind (create_db glue_catalog db) (\<lambda>u1.
      io_bind (create_glue_table (on_catalog P) glue_catalog db base date) (\<lambda>u2.
      io_bind (create_lookup_tables (on_catalog P) glue_catalog db uri) (\<lambda>u3.
      add_hitdata_partition (on_catalog P) glue_catalog db base date))) w) = Inr ()"
proof -
  let ?s2 = "create_glue_table (on_catalog P) glue_catalog db base date"
  let ?s3 = "create_lookup_tables (on_catalog P) glue_catalog db uri"
  let ?s4 = "add_hitdata_partition (on_catalog P) glue_catalog db base date"
  obtain w1 where r1: "create_db glue_catalog db w = (Inr (), w1)"
    by (simp add: create_db_catalog)
  from r1 extends_create_db [of w db] have e1: "extends w w1" by simp
  from r1 have d1: "has_database w1 db"
    by (auto simp add: create_db_catalog has_database_def split: if_splits)
  from e1 have o1: "objects w1 = objects w" by (simp add: extends_def)
  have h1: "fst (get_headers (on_catalog P) base date w1) = Inr headers"
    using get_headers_objects [OF o1, of P base date] assms by simp
  obtain r w2 where r2': "?s2 w1 = (r, w2)" by (cases "?s2 w1")
  with d1 h1 have r2: "?s2 w1 = (Inr (), w2)"
    by (auto simp add: create_glue_table_catalog split: if_splits)
  from r2 d1 h1 have t2: "has_table w2 db ''hit_data''"
    by (auto simp add: create_glue_table_catalog has_table_def split: if_splits)
  from r2 extends_create_glue_table [of w1 P db base date] have e2: "extends w1 w2" by simp
  from e2 d1 have d2: "has_database w2 db" by (rule extends_has_database)
  obtain r' w3 where r3': "?s3 w2 = (r', w3)" by (cases "?s3 w2")
  with for_lookup_names_progress [OF d2, of P uri generic_lookup_types]
  have r3: "?s3 w2 = (Inr (), w3)" by (simp add: create_lookup_tables_def)
  from r3 extends_create_lookup_tables [of w2 P db uri] have e3: "extends w2 w3" by simp
  from e3 t2 have t3: "has_table w3 db ''hit_data''" by (rule extends_has_table)
  from e1 e2 e3 have o3: "objects w3 = objects w" by (simp add: extends_def)
  have h3: "fst (get_headers (on_catalog P) base date w3) = Inr headers"
    using get_headers_objects [OF o3, of P base date] assms by simp
  from t3 h3 have r4: "fst (?s4 w3) = Inr ()"
    by (simp add: add_hitdata_partition_catalog)
  show ?thesis
    by (simp only: io_bind_def r1 prod.case sum.case r2 r3 r4)
qed

lemma on_catalog_sample: "on_catalog sample_platform = sample_platform"
  by (simp add: on_catalog_def sample_platform_def)

lemma sample_handler_eq:
  "handler sample_platform sample_event =
     io_bind (create_db glue_catalog ''adobe'') (\<lambda>u1.
     io_bind (create_glue_table (on_catalog sample_platform) glue_catalog ''adobe''
                ''s3://bucket/feed'' ''2024-03-01'') (\<lambda>u2.
     io_bind (create_lookup_tables (on_catalog sample_platform) glue_catalog ''adobe''
                ''s3://bucket/lookup'') (\<lambda>u3.
     add_hitdata_partition (on_catalog sample_platform) glue_catalog ''adobe''
       ''s3://bucket/feed'' ''2024-03-01'')))"
proof -
  have c: "boto3_client_glue sample_platform ''us-east-1'' = glue_catalog"
    by (simp add: sample_platform_def)
  show ?thesis
    by (simp only: handler_eq [OF sample_event_simps sample_environ] c sample_uris
          on_catalog_sample)
qed

lemma sample_run_returns:
  assumes "objects w = objects sample_world"
  shows "fst (handler sample_platform sample_event w) = Inr ()"
proof -
  from assms have
    "fst (get_headers (on_catalog sample_platform) ''s3://bucket/feed'' ''2024-03-01'' w)
       = fst (get_headers (on_catalog sample_platform) ''s3://bucket/feed'' ''2024-03-01''
                sample_world)"
    by (rule get_headers_objects)
  then have
    "fst (get_headers (on_catalog sample_platform) ''s3://bucket/feed'' ''2024-03-01'' w)
       = Inr [''a'', ''b'', ''c'']"
    by (simp add: on_catalog_sample sample_headers_1)
  from steps_progress [OF this] show ?thesis by (simp only: sample_handler_eq)
qed


lemma create_lookup_table_returned:
  assumes "create_lookup_table (on_catalog P) glue_catalog db uri name w = (Inr x, w1)"
  shows "has_table w1 db name \<and>
    (\<forall>other. other \<noteq> name \<longrightarrow> has_table w1 db other = has_table w db other) \<and>
    (\<not> has_table w db name \<longrightarrow>
       map_of (tables w1) (db, name) =
         Some \<lparr> tbl_Name = name,
                tbl_StorageDescriptor =
                  storage_descriptor
                    [\<lparr> col_Type = ''string'', col_Name = ''id'' \<rparr>,
                     \<lparr> col_Type = ''string'', col_Name = ''value'' \<rparr>]
                    (uri @ ''/'' @ name @ ''/''),
                tbl_PartitionKeys = [],
                tbl_TableType = ''EXTERNAL_TABLE'',
                tbl_Parameters = [],
                tbl_LastAccessTime = time_time P w \<rparr>)"
proof (cases "has_table w db name")
  case True
  with assms show ?thesis by (simp add: create_lookup_table_catalog)
next
  case False
  then have n: "map_of (tables w) (db, name) = None"
    by (simp add: has_table_def map_of_eq_None_iff)
  from False assms have d: "has_database w db"
    by (auto simp add: create_lookup_table_catalog split: if_splits)
  from False d assms n show ?thesis
    by (auto simp add: create_lookup_table_catalog has_table_def map_add_def)
qed

lemma for_lookup_names_created:
  assumes "for_lookup_names (on_catalog P) glue_catalog db uri names w = (Inr (), w')"
    and "name \<in> set names" and "\<not> has_table w db name"
  shows "\<exists>t. map_of (tables w') (db, name) =
         Some \<lparr> tbl_Name = name,
                tbl_StorageDescriptor =
                  storage_descriptor
                    [\<lparr> col_Type = ''string'', col_Name = ''id'' \<rparr>,
                     \<lparr> col_Type = ''string'', col_Name = ''value'' \<rparr>]
                    (uri @ ''/'' @ name @ ''/''),
                tbl_PartitionKeys = [],
                tbl_TableType = ''EXTERNAL_TABLE'',
                tbl_Parameters = [],
                tbl_LastAccessTime = t \<rparr>"
  using assms
proof (induction names arbitrary: w)
  case Nil
  then show ?case by simp
next
  case (Cons n rest)
  from Cons.prems(1) have
    "io_bind (create_lookup_table (on_catalog P) glue_catalog db uri n)
       (\<lambda>u. for_lookup_names (on_catalog P) glue_catalog db uri rest) w = (Inr (), w')"
    by simp
  then show ?case
  proof (cases rule: io_bind_cases)
    case (raised e)
    then show ?thesis by simp
  next
    case (returned x w1)
    note step = create_lookup_table_returned [OF returned(1)]
    from returned(2) extends_for_lookup_names [of w1 P db uri rest]
    have ext: "extends w1 w'" by simp
    show ?thesis
    proof (cases "name = n")
      case True
      with step Cons.prems(3) have "has_table w1 db name" and
        m: "map_of (tables w1) (db, name) =
         Some \<lparr> tbl_Name = name,
                tbl_StorageDescriptor =
                  storage_descriptor
                    [\<lparr> col_Type = ''string'', col_Name = ''id'' \<rparr>,
                     \<lparr> col_Type = ''string'', col_Name = ''value'' \<rparr>]
                    (uri @ ''/'' @ name @ ''/''),
                tbl_PartitionKeys = [],
                tbl_TableType = ''EXTERNAL_TABLE'',
                tbl_Parameters = [],
                tbl_LastAccessTime = time_time P w \<rparr>"
        by simp_all
      from map_of_extends [OF ext this(1)] m show ?thesis by simp
    next
      case False
      with Cons.prems(2) have in_rest: "name \<in> set rest" by simp
      from False step Cons.prems(3) have "\<not> has_table w1 db name" by simp
      from Cons.IH [OF returned(2) in_rest this] show ?thesis .
    qed
  qed
qed

subsection \<open>Running the handler twice\<close>




lemma day1_world_simps:
  "has_database day1_world ''adobe''"
  "has_table day1_world ''adobe'' ''hit_data''"
  "has_partition day1_world ''adobe'' ''hit_data'' [''2024-03-01'']"
  "\<not> has_partition day1_world ''adobe'' ''hit_data'' [''2024-03-02'']"
  "objects day1_world = objects sample_world"
  by (simp_all add: day1_world_def has_database_def has_table_def has_partition_def)

subsection \<open>An existing base table\<close>

text \<open>
  C9. If the table \<^verbatim>\<open>hit_data\<close> is there when the table step runs, the step makes no
  call but its existence check: it reads no header file and writes nothing, so the table
  keeps its columns, its partition keys, its location and all its other attributes,
  whatever the header file of the date holds.
\<close>

theorem existing_hit_data_table_is_left_alone:
  "(get_table c db ''hit_data'' s = (Inr (), s1) \<longrightarrow>
      create_glue_table P c db base date s = (Inr (), s1) \<and>
      create_glue_table (traced_platform P) (traced c) db base date (s, tr)
        = (Inr (), (s1, tr @ [(GetTable db ''hit_data'', Inr ())]))) \<and>
   (has_table w db ''hit_data'' \<longrightarrow>
      create_glue_table (on_catalog P) glue_catalog db base date w = (Inr (), w))"
proof -
  have a: "create_glue_table P c db base date s = (Inr (), s1)"
    if "get_table c db ''hit_data'' s = (Inr (), s1)"
    using that by (simp add: create_glue_table_def does_table_exist_def io_bind_def io_return_def)
  have b: "create_glue_table (traced_platform P) (traced c) db base date (s, tr)
        = (Inr (), (s1, tr @ [(GetTable db ''hit_data'', Inr ())]))"
    if "get_table c db ''hit_data'' s = (Inr (), s1)"
    using that
    by (simp add: create_glue_table_def does_table_exist_def io_bind_def io_return_def
          traced_simps log_call_run)
  have c: "create_glue_table (on_catalog P) glue_catalog db base date w = (Inr (), w)"
    if "has_table w db ''hit_data''"
    using that by (simp add: create_glue_table_catalog)
  from a b c show ?thesis by blast
qed

theorem existing_hit_data_table_witness:
  "get_table glue_catalog ''adobe'' ''hit_data'' day1_world = (Inr (), day1_world) \<and>
   has_table day1_world ''adobe'' ''hit_data'' \<and>
   create_glue_table (on_catalog sample_platform) glue_catalog ''adobe'' ''s3://bucket/feed''
     ''2024-03-02'' day1_world = (Inr (), day1_world) \<and>
   create_glue_table (traced_platform sample_platform) (traced glue_catalog) ''adobe''
     ''s3://bucket/feed'' ''2024-03-02'' (day1_world, [])
     = (Inr (), (day1_world, [] @ [(GetTable ''adobe'' ''hit_data'', Inr ())]))"
proof -
  have g: "get_table glue_catalog ''adobe'' ''hit_data'' day1_world = (Inr (), day1_world)"
    by (simp add: glue_catalog_simps day1_world_simps)
  note t = day1_world_simps(2)
  from existing_hit_data_table_is_left_alone
    [of glue_catalog "''adobe''" day1_world day1_world sample_platform "''s3://bucket/feed''"
        "''2024-03-02''" "[]" day1_world] g t
  show ?thesis by simp
qed

subsection \<open>The partition step\<close>

text \<open>
  C6. When the partition of the date is not there, the partition step fetches the headers
  itself and then makes the create call for a partition whose location is exactly
  \<^verbatim>\<open>{reportBase}/rawtsv/hit_data/dt={date}/\<close>. On the sequential catalogue the
  step leaves the entries of all other partitions as they are, each once, and appends at
  most the entry of the date.
\<close>

theorem partition_step_creates_dated_partition:
  "(get_partition c db ''hit_data'' [date] s = (Inl EntityNotFoundException, s1) \<longrightarrow>
      add_hitdata_partition P c db base date s =
        io_bind (get_headers P base date) (\<lambda>headers.
          create_partition c db ''hit_data''
            \<lparr> part_Values = [date],
              part_StorageDescriptor =
                storage_descriptor
                  (map (\<lambda>name. \<lparr> col_Type = ''string'', col_Name = name \<rparr>) headers)
                  (base @ ''/rawtsv/hit_data/dt='' @ date @ ''/''),
              part_Parameters = [] \<rparr>) s1) \<and>
   (add_hitdata_partition (on_catalog P) glue_catalog db base date w = (r, w') \<longrightarrow>
      filter (\<lambda>entry. fst entry \<noteq> (db, ''hit_data'', [date])) (partitions w')
        = filter (\<lambda>entry. fst entry \<noteq> (db, ''hit_data'', [date])) (partitions w) \<and>
      databases w' = databases w \<and> tables w' = tables w \<and>
      (\<not> has_partition w db ''hit_data'' [date] \<and> r = Inr () \<longrightarrow>
         (\<exists>headers.
            fst (get_headers (on_catalog P) base date w) = Inr headers \<and>
            partitions w' = partitions w @
              [((db, ''hit_data'', [date]),
                \<lparr> part_Values = [date],
                  part_StorageDescriptor =
                    storage_descriptor
                      (map (\<lambda>name. \<lparr> col_Type = ''string'', col_Name = name \<rparr>) headers)
                      (base @ ''/rawtsv/hit_data/dt='' @ date @ ''/''),
                  part_Parameters = [] \<rparr>)])))"
proof -
  have a: "add_hitdata_partition P c db base date s =
        io_bind (get_headers P base date) (\<lambda>headers.
          create_partition c db ''hit_data''
            \<lparr> part_Values = [date],
              part_StorageDescriptor =
                storage_descriptor
                  (map (\<lambda>name. \<lparr> col_Type = ''string'', col_Name = name \<rparr>) headers)
                  (base @ ''/rawtsv/hit_data/dt='' @ date @ ''/''),
              part_Parameters = [] \<rparr>) s1"
    if "get_partition c db ''hit_data'' [date] s = (Inl EntityNotFoundException, s1)"
    using that by (rule add_hitdata_partition_absent)
  have b: "filter (\<lambda>entry. fst entry \<noteq> (db, ''hit_data'', [date])) (partitions w')
        = filter (\<lambda>entry. fst entry \<noteq> (db, ''hit_data'', [date])) (partitions w) \<and>
      databases w' = databases w \<and> tables w' = tables w \<and>
      (\<not> has_partition w db ''hit_data'' [date] \<and> r = Inr () \<longrightarrow>
         (\<exists>headers.
            fst (get_headers (on_catalog P) base date w) = Inr headers \<and>
            partitions w' = partitions w @
              [((db, ''hit_data'', [date]),
                \<lparr> part_Values = [date],
                  part_StorageDescriptor =
                    storage_descriptor
                      (map (\<lambda>name. \<lparr> col_Type = ''string'', col_Name = name \<rparr>) headers)
                      (base @ ''/rawtsv/hit_data/dt='' @ date @ ''/''),
                  part_Parameters = [] \<rparr>)]))"
    if "add_hitdata_partition (on_catalog P) glue_catalog db base date w = (r, w')"
    using that
    by (cases "fst (get_headers (on_catalog P) base date w)")
       (auto simp add: add_hitdata_partition_catalog split: if_splits)
  from a b show ?thesis by blast
qed

lemma day1_headers_2:
  "fst (get_headers (on_catalog sample_platform) ''s3://bucket/feed'' ''2024-03-02'' day1_world)
     = Inr [''a'', ''b'']"
  using get_headers_objects [OF day1_world_simps(5), of sample_platform "''s3://bucket/feed''"
      "''2024-03-02''"]
  by (simp add: on_catalog_sample sample_headers_2)

lemma day1_add_partition:
  "add_hitdata_partition (on_catalog sample_platform) glue_catalog ''adobe''
     ''s3://bucket/feed'' ''2024-03-02'' day1_world
   = (Inr (),
      day1_world\<lparr>partitions := partitions day1_world @
        [((''adobe'', ''hit_data'', [''2024-03-02'']),
          \<lparr> part_Values = [''2024-03-02''],
            part_StorageDescriptor =
              storage_descriptor
                (map (\<lambda>name. \<lparr> col_Type = ''string'', col_Name = name \<rparr>) [''a'', ''b''])
                (''s3://bucket/feed'' @ ''/rawtsv/hit_data/dt='' @ ''2024-03-02'' @ ''/''),
            part_Parameters = [] \<rparr>)]\<rparr>)"
  by (simp only: add_hitdata_partition_catalog day1_world_simps day1_headers_2 if_False
        if_True sum.case not_True_eq_False)

theorem partition_step_witness:
  "get_partition glue_catalog ''adobe'' ''hit_data'' [''2024-03-02''] day1_world
     = (Inl EntityNotFoundException, day1_world) \<and>
   fst (add_hitdata_partition (on_catalog sample_platform) glue_catalog ''adobe''
          ''s3://bucket/feed'' ''2024-03-02'' day1_world) = Inr () \<and>
   filter (\<lambda>entry. fst entry \<noteq> (''adobe'', ''hit_data'', [''2024-03-02'']))
     (partitions (snd (add_hitdata_partition (on_catalog sample_platform) glue_catalog
        ''adobe'' ''s3://bucket/feed'' ''2024-03-02'' day1_world)))
     = [((''adobe'', ''hit_data'', [''2024-03-01'']), sample_partition_day1)] \<and>
   map (\<lambda>entry. sd_Location (part_StorageDescriptor (snd entry)))
     (partitions (snd (add_hitdata_partition (on_catalog sample_platform) glue_catalog
        ''adobe'' ''s3://bucket/feed'' ''2024-03-02'' day1_world)))
     = [''s3://bucket/feed/rawtsv/hit_data/dt=2024-03-01/'',
        ''s3://bucket/feed/rawtsv/hit_data/dt=2024-03-02/'']"
proof -
  have g: "get_partition glue_catalog ''adobe'' ''hit_data'' [''2024-03-02''] day1_world
     = (Inl EntityNotFoundException, day1_world)"
    by (simp add: glue_catalog_simps day1_world_simps)
  have p: "partitions day1_world
      = [((''adobe'', ''hit_data'', [''2024-03-01'']), sample_partition_day1)]"
    by (simp add: day1_world_def)
  have l: "sd_Location (part_StorageDescriptor sample_partition_day1)
      = ''s3://bucket/feed/rawtsv/hit_data/dt=2024-03-01/''"
    by (simp add: sample_partition_day1_def storage_descriptor_def)
  from partition_step_creates_dated_partition
    [of glue_catalog "''adobe''" "''2024-03-02''" day1_world day1_world sample_platform
        "''s3://bucket/feed''" day1_world "Inr ()"
        "snd (add_hitdata_partition (on_catalog sample_platform) glue_catalog ''adobe''
           ''s3://bucket/feed'' ''2024-03-02'' day1_world)"]
    g day1_add_partition
  show ?thesis by (simp add: p l storage_descriptor_def)
qed

subsection \<open>The lookup tables\<close>

text \<open>
  C7 (amended). After a run that returns, on the sequential catalogue, every name of the
  fixed set of lookup tables is a table of the database. A lookup table that was there
  before the run is left as it was. One that was not there is the table the run created:
  no partition keys, exactly the two string columns \<^verbatim>\<open>id\<close> and \<^verbatim>\<open>value\<close>,
  at \<^verbatim>\<open>{lookupURI}/{name}/\<close> with the trailing slashes of the event's URI removed.
  A second run returns and changes nothing.
\<close>

theorem lookup_tables_after_a_run:
  assumes "handler (on_catalog P) event w = (Inr (), w')"
    and "event ''lookupURI'' = Some lookup_uri"
    and "environ P ''DB_NAME'' = Some db"
    and "name \<in> set generic_lookup_types"
  shows "has_table w' db name \<and>
    (has_table w db name \<longrightarrow> map_of (tables w') (db, name) = map_of (tables w) (db, name)) \<and>
    (\<not> has_table w db name \<longrightarrow>
       (\<exists>t. map_of (tables w') (db, name) =
          Some \<lparr> tbl_Name = name,
                 tbl_StorageDescriptor =
                   storage_descriptor
                     [\<lparr> col_Type = ''string'', col_Name = ''id'' \<rparr>,
                      \<lparr> col_Type = ''string'', col_Name = ''value'' \<rparr>]
                     (py_rstrip (\<lambda>c. c = CHR ''/'') lookup_uri @ ''/'' @ name @ ''/''),
                 tbl_PartitionKeys = [],
                 tbl_TableType = ''EXTERNAL_TABLE'',
                 tbl_Parameters = [],
                 tbl_LastAccessTime = t \<rparr>)) \<and>
    handler (on_catalog P) event w' = (Inr (), w')"
  using assms(1)
proof (cases rule: handler_cases)
  case (early e)
  then show ?thesis by simp
next
  case (run report_base lookup_uri' partition_date glue_database region)
  let ?base = "py_rstrip (\<lambda>c. c = CHR ''/'') report_base"
  let ?uri = "py_rstrip (\<lambda>c. c = CHR ''/'') lookup_uri"
  let ?s2 = "create_glue_table (on_catalog P) glue_catalog db ?base partition_date"
  let ?s3 = "create_lookup_tables (on_catalog P) glue_catalog db ?uri"
  let ?s4 = "add_hitdata_partition (on_catalog P) glue_catalog db ?base partition_date"
  from run(2) assms(2) have lu: "lookup_uri' = lookup_uri" by simp
  from run(4) assms(3) have gd: "glue_database = db" by (simp add: on_catalog_simps)
  from run(6) have steps:
    "io_bind (create_db glue_catalog db) (\<lambda>u1. io_bind ?s2 (\<lambda>u2. io_bind ?s3 (\<lambda>u3. ?s4))) w
       = (Inr (), w')"
    by (simp only: on_catalog_simps lu gd)
  from assms(4) have nh: "name \<noteq> ''hit_data''"
    using hit_data_not_lookup by auto
  have again: "handler (on_catalog P) event w' = (Inr (), w')"
    using idempotent_handler [of P event] assms(1)
    by (auto simp add: idempotent_def dest: spec [of _ w])
  from steps show ?thesis
  proof (cases rule: io_bind_cases)
    case (raised e)
    then show ?thesis by simp
  next
    case r1: (returned x1 w1)
    from r1(1) have t1: "tables w1 = tables w"
      by (auto simp add: create_db_catalog split: if_splits)
    from r1(2) show ?thesis
    proof (cases rule: io_bind_cases)
      case (raised e)
      then show ?thesis by simp
    next
      case r2: (returned x2 w2)
      from r2(1) nh t1 have t2: "has_table w2 db name = has_table w db name"
        by (cases "fst (get_headers (on_catalog P) ?base partition_date w1)")
           (auto simp add: create_glue_table_catalog has_table_def split: if_splits)
      from r2(2) show ?thesis
      proof (cases rule: io_bind_cases)
        case (raised e)
        then show ?thesis by simp
      next
        case r3: (returned x3 w3)
        from r3(1) have loop:
          "for_lookup_names (on_catalog P) glue_catalog db ?uri generic_lookup_types w2
             = (Inr (), w3)"
          by (simp add: create_lookup_tables_def)
        from for_lookup_names_returned [OF loop] assms(4)
        have h3: "has_table w3 db name" by simp
        from r3(2) extends_add_hitdata_partition [of w3 P db ?base partition_date]
        have e4: "extends w3 w'" by simp
        from e4 h3 have a: "has_table w' db name" by (rule extends_has_table)
        from assms(1) extends_handler [of w P event] have ew: "extends w w'" by simp
        have b: "map_of (tables w') (db, name) = map_of (tables w) (db, name)"
          if "has_table w db name"
          using ew that by (rule map_of_extends)
        have c: "\<exists>t. map_of (tables w') (db, name) =
          Some \<lparr> tbl_Name = name,
                 tbl_StorageDescriptor =
                   storage_descriptor
                     [\<lparr> col_Type = ''string'', col_Name = ''id'' \<rparr>,
                      \<lparr> col_Type = ''string'', col_Name = ''value'' \<rparr>]
                     (?uri @ ''/'' @ name @ ''/''),
                 tbl_PartitionKeys = [],
                 tbl_TableType = ''EXTERNAL_TABLE'',
                 tbl_Parameters = [],
                 tbl_LastAccessTime = t \<rparr>"
          if "\<not> has_table w db name"
        proof -
          from that t2 have "\<not> has_table w2 db name" by simp
          from for_lookup_names_created [OF loop assms(4) this]
          show ?thesis by (simp only: map_of_extends [OF e4 h3])
        qed
        from a b c again show ?thesis by blast
      qed
    qed
  qed
qed

theorem lookup_tables_witness:
  "fst (handler (on_catalog sample_platform) sample_event sample_world) = Inr () \<and>
   \<not> has_table sample_world ''adobe'' ''browser'' \<and>
   has_table (snd (handler (on_catalog sample_platform) sample_event sample_world))
     ''adobe'' ''browser'' \<and>
   (\<exists>t. map_of (tables (snd (handler (on_catalog sample_platform) sample_event sample_world)))
          (''adobe'', ''browser'') =
        Some \<lparr> tbl_Name = ''browser'',
               tbl_StorageDescriptor =
                 storage_descriptor
                   [\<lparr> col_Type = ''string'', col_Name = ''id'' \<rparr>,
                    \<lparr> col_Type = ''string'', col_Name = ''value'' \<rparr>]
                   ''s3://bucket/lookup/browser/'',
               tbl_PartitionKeys = [],
               tbl_TableType = ''EXTERNAL_TABLE'',
               tbl_Parameters = [],
               tbl_LastAccessTime = t \<rparr>)"
proof -
  have "fst (handler sample_platform sample_event sample_world) = Inr ()"
    by (rule sample_run_returns) simp
  then have a: "fst (handler (on_catalog sample_platform) sample_event sample_world) = Inr ()"
    by (simp only: on_catalog_sample)
  then have h: "handler (on_catalog sample_platform) sample_event sample_world
      = (Inr (), snd (handler (on_catalog sample_platform) sample_event sample_world))"
    by (simp add: prod_eq_iff)
  have n: "''browser'' \<in> set generic_lookup_types" by (simp add: generic_lookup_types_def)
  note b = sample_world_empty(2) [of "''adobe''" "''browser''"]
  from lookup_tables_after_a_run [OF h sample_event_simps(2) sample_environ(1) n] a b
  show ?thesis by (simp add: sample_uris)
qed

text \<open>
  The claim as the specification words it fails for a lookup table that is there already:
  the run leaves it at its old location, not at the one of the event's lookup URI.
\<close>

lemma stale_world_simps:
  "has_table stale_world ''adobe'' ''browser''"
  "map_of (tables stale_world) (''adobe'', ''browser'') = Some stale_browser_table"
  "objects stale_world = objects sample_world"
  by (simp_all add: stale_world_def has_table_def)

theorem lookup_tables_counterexample:
  "sample_event ''lookupURI'' = Some ''s3://bucket/lookup'' \<and>
   fst (handler sample_platform sample_event stale_world) = Inr () \<and>
   map_of (tables (snd (handler sample_platform sample_event stale_world)))
     (''adobe'', ''browser'') = Some stale_browser_table \<and>
   sd_Location (tbl_StorageDescriptor stale_browser_table) = ''s3://bucket/old/browser/''"
proof -
  have a: "fst (handler sample_platform sample_event stale_world) = Inr ()"
    by (rule sample_run_returns) (rule stale_world_simps)
  from extends_handler [of stale_world sample_platform sample_event]
  have "extends stale_world (snd (handler sample_platform sample_event stale_world))"
    by (simp only: on_catalog_sample)
  from map_of_extends [OF this stale_world_simps(1)]
  have b: "map_of (tables (snd (handler sample_platform sample_event stale_world)))
     (''adobe'', ''browser'') = Some stale_browser_table"
    by (simp only: stale_world_simps)
  have c: "sd_Location (tbl_StorageDescriptor stale_browser_table) = ''s3://bucket/old/browser/''"
    by (simp add: stale_browser_table_def storage_descriptor_def)
  from sample_event_simps(2) a b c show ?thesis by simp
qed

subsection \<open>What follows each existence check\<close>

lemma followed_append:
  "followed (Inr ()) evs1 \<Longrightarrow> followed r evs2 \<Longrightarrow> followed r (evs1 @ evs2)"
proof (induction "Inr () :: exn + unit" evs1 rule: followed.induct)
  case 1
  then show ?case by simp
next
  case (2 ev)
  then show ?case by (cases evs2) (auto split: if_splits)
next
  case (3 ev ev' evs)
  then show ?case by (simp split: if_splits)
qed

lemma followed_nth:
  "followed r evs \<Longrightarrow> i < length evs \<Longrightarrow> \<not> is_create (fst (evs ! i)) \<Longrightarrow>
   snd (evs ! i) = Inl EntityNotFoundException \<Longrightarrow>
     (if Suc i < length evs
      then is_create (fst (evs ! Suc i)) \<and> probe_of (fst (evs ! Suc i)) = fst (evs ! i)
      else r \<noteq> Inr ())"
proof (induction r evs arbitrary: i rule: followed.induct)
  case (1 r)
  then show ?case by simp
next
  case (2 r ev)
  then show ?case by (simp split: if_splits)
next
  case (3 r ev ev' evs)
  show ?case
  proof (cases i)
    case 0
    with "3.prems" show ?thesis by (simp split: if_splits)
  next
    case (Suc j)
    with "3.prems" have f: "followed r (ev' # evs)" and j: "j < length (ev' # evs)"
      and c: "\<not> is_create (fst ((ev' # evs) ! j))"
      and e: "snd ((ev' # evs) ! j) = Inl EntityNotFoundException"
      by simp_all
    from "3.IH" [OF f j c e] Suc show ?thesis by (cases "j < length evs") simp_all
  qed
qed

lemma checks_append: "checks (evs1 @ evs2) = checks evs1 @ checks evs2"
  by (simp add: checks_def)

lemma did_raised: "did ps (Inl e) evs \<Longrightarrow> did (ps @ qs) (Inl e) evs"
  by (auto simp add: did_def intro: prefix_order.trans)

lemma did_then:
  assumes "did ps (Inr ()) evs1" and "did qs r evs2"
  shows "did (ps @ qs) r (evs1 @ evs2)"
proof -
  from assms have a: "followed r (evs1 @ evs2)" by (simp add: did_def followed_append)
  from assms(1) have c1: "checks evs1 = ps" by (simp add: did_def)
  from assms(2) have "prefix (checks evs2) qs" by (simp add: did_def)
  with c1 have b: "prefix (checks (evs1 @ evs2)) (ps @ qs)" by (simp add: checks_append)
  from assms(2) c1 have c: "r = Inr () \<longrightarrow> checks (evs1 @ evs2) = ps @ qs"
    by (simp add: did_def checks_append)
  from a b c show ?thesis by (simp add: did_def)
qed

lemma create_db_did:
  assumes "create_db (traced c) db (s, tr) = (r, (s', tr'))"
  shows "\<exists>evs. tr' = tr @ evs \<and> did [GetDatabase db] r evs"
  using assms
  by (auto simp add: create_db_def traced_simps log_call_run did_def checks_def
      split: prod.splits sum.splits if_splits)

lemma create_glue_table_did:
  assumes "create_glue_table (traced_platform P) (traced c) db base date (s, tr) = (r, (s', tr'))"
  shows "\<exists>evs. tr' = tr @ evs \<and> did [GetTable db ''hit_data''] r evs"
  using assms
  by (auto simp add: create_glue_table_def does_table_exist_def traced_simps log_call_run
      get_headers_traced io_bind_def io_return_def did_def checks_def
      split: prod.splits sum.splits if_splits)

lemma add_hitdata_partition_did:
  assumes "add_hitdata_partition (traced_platform P) (traced c) db base date (s, tr)
           = (r, (s', tr'))"
  shows "\<exists>evs. tr' = tr @ evs \<and> did [GetPartition db ''hit_data'' [date]] r evs"
  using assms
  by (auto simp add: add_hitdata_partition_def does_partition_exist_def traced_simps
      log_call_run get_headers_traced io_bind_def io_return_def did_def checks_def
      split: prod.splits sum.splits if_splits)

lemma create_lookup_table_did:
  assumes "create_lookup_table (traced_platform P) (traced c) db uri name (s, tr)
           = (r, (s', tr'))"
  shows "\<exists>evs. tr' = tr @ evs \<and> did [GetTable db name] r evs"
  using assms
  by (auto simp add: create_lookup_table_def does_table_exist_def traced_simps log_call_run
      io_bind_def io_return_def did_def checks_def
      split: prod.splits sum.splits if_splits)

lemma for_lookup_names_did:
  assumes "for_lookup_names (traced_platform P) (traced c) db uri names (s, tr) = (r, (s', tr'))"
  shows "\<exists>evs. tr' = tr @ evs \<and> did (map (GetTable db) names) r evs"
  using assms
proof (induction names arbitrary: s tr)
  case Nil
  then show ?case by (simp add: io_return_def did_def checks_def)
next
  case (Cons name rest)
  from Cons.prems have
    "io_bind (create_lookup_table (traced_platform P) (traced c) db uri name)
       (\<lambda>u. for_lookup_names (traced_platform P) (traced c) db uri rest) (s, tr)
     = (r, (s', tr'))"
    by simp
  then show ?case
  proof (cases rule: io_bind_cases)
    case (raised e)
    from create_lookup_table_did [OF raised(1)]
    obtain evs where "tr' = tr @ evs" "did [GetTable db name] (Inl e) evs" by blast
    with raised(2) did_raised [of "[GetTable db name]" e evs "map (GetTable db) rest"]
    show ?thesis by auto
  next
    case (returned x s1)
    obtain s1' tr1 where s1: "s1 = (s1', tr1)" by (cases s1)
    from returned(1) s1 have
      "create_lookup_table (traced_platform P) (traced c) db uri name (s, tr)
         = (Inr (), (s1', tr1))"
      by simp
    from create_lookup_table_did [OF this]
    obtain evs1 where e1: "tr1 = tr @ evs1" "did [GetTable db name] (Inr ()) evs1" by blast
    from returned(2) s1 have
      "for_lookup_names (traced_platform P) (traced c) db uri rest (s1', tr1) = (r, (s', tr'))"
      by simp
    from Cons.IH [OF this]
    obtain evs2 where e2: "tr' = tr1 @ evs2" "did (map (GetTable db) rest) r evs2" by blast
    from did_then [OF e1(2) e2(2)] e1(1) e2(1) show ?thesis by auto
  qed
qed

lemma create_lookup_tables_did:
  assumes "create_lookup_tables (traced_platform P) (traced c) db uri (s, tr) = (r, (s', tr'))"
  shows "\<exists>evs. tr' = tr @ evs \<and> did (map (GetTable db) generic_lookup_types) r evs"
  using assms by (simp add: create_lookup_tables_def for_lookup_names_did)

lemma handler_did:
  assumes "handler (traced_platform P) event (s, tr) = (r, (s', tr'))"
  shows "\<exists>evs. tr' = tr @ evs \<and>
    (\<forall>db date. environ P ''DB_NAME'' = Some db \<longrightarrow> event ''reportDate'' = Some date \<longrightarrow>
       did (checks_of db date) r evs) \<and>
    (r = Inr () \<longrightarrow>
       (\<exists>db date. environ P ''DB_NAME'' = Some db \<and> event ''reportDate'' = Some date))"
  using assms
proof (cases rule: handler_cases)
  case (early e)
  then show ?thesis by (simp add: did_def checks_def)
next
  case (run report_base lookup_uri partition_date db region)
  let ?P = "traced_platform P"
  let ?c = "traced (boto3_client_glue P region)"
  let ?base = "py_rstrip (\<lambda>c. c = CHR ''/'') report_base"
  let ?lookup = "py_rstrip (\<lambda>c. c = CHR ''/'') lookup_uri"
  let ?p1 = "[GetDatabase db]"
  let ?p2 = "[GetTable db ''hit_data'']"
  let ?p3 = "map (GetTable db) generic_lookup_types"
  let ?p4 = "[GetPartition db ''hit_data'' [partition_date]]"
  have all: "checks_of db partition_date = ?p1 @ ?p2 @ ?p3 @ ?p4"
    by (simp add: checks_of_def)
  from run(4) have db: "environ P ''DB_NAME'' = Some db" by (simp add: traced_platform_simps)
  from run(6) have
    "io_bind (create_db ?c db) (\<lambda>u1.
     io_bind (create_glue_table ?P ?c db ?base partition_date) (\<lambda>u2.
     io_bind (create_lookup_tables ?P ?c db ?lookup) (\<lambda>u3.
     add_hitdata_partition ?P ?c db ?base partition_date))) (s, tr) = (r, (s', tr'))"
    by (simp only: traced_platform_simps)
  then have "\<exists>evs. tr' = tr @ evs \<and> did (?p1 @ ?p2 @ ?p3 @ ?p4) r evs"
  proof (cases rule: io_bind_cases)
    case (raised e)
    from create_db_did [OF raised(1)]
    obtain evs where e: "tr' = tr @ evs" "did ?p1 (Inl e) evs" by blast
    from did_raised [OF e(2), of "?p2 @ ?p3 @ ?p4"] e(1) show ?thesis
      unfolding raised(2) by blast
  next
    case r1: (returned x1 s1)
    obtain s1' tr1 where s1: "s1 = (s1', tr1)" by (cases s1)
    from r1(1) s1 have "create_db ?c db (s, tr) = (Inr (), (s1', tr1))" by simp
    from create_db_did [OF this]
    obtain evs1 where e1: "tr1 = tr @ evs1" "did ?p1 (Inr ()) evs1" by blast
    from r1(2) s1 have
      "io_bind (create_glue_table ?P ?c db ?base partition_date) (\<lambda>u2.
       io_bind (create_lookup_tables ?P ?c db ?lookup) (\<lambda>u3.
       add_hitdata_partition ?P ?c db ?base partition_date)) (s1', tr1) = (r, (s', tr'))"
      by simp
    then have "\<exists>evs. tr' = tr1 @ evs \<and> did (?p2 @ ?p3 @ ?p4) r evs"
    proof (cases rule: io_bind_cases)
      case (raised e)
      from create_glue_table_did [OF raised(1)]
      obtain evs where e: "tr' = tr1 @ evs" "did ?p2 (Inl e) evs" by blast
      from did_raised [OF e(2), of "?p3 @ ?p4"] e(1) show ?thesis
        unfolding raised(2) by blast
    next
      case r2: (returned x2 s2)
      obtain s2' tr2 where s2: "s2 = (s2', tr2)" by (cases s2)
      from r2(1) s2 have
        "create_glue_table ?P ?c db ?base partition_date (s1', tr1) = (Inr (), (s2', tr2))"
        by simp
      from create_glue_table_did [OF this]
      obtain evs2 where e2: "tr2 = tr1 @ evs2" "did ?p2 (Inr ()) evs2" by blast
      from r2(2) s2 have
        "io_bind (create_lookup_tables ?P ?c db ?lookup) (\<lambda>u3.
         add_hitdata_partition ?P ?c db ?base partition_date) (s2', tr2) = (r, (s', tr'))"
        by simp
      then have "\<exists>evs. tr' = tr2 @ evs \<and> did (?p3 @ ?p4) r evs"
      proof (cases rule: io_bind_cases)
        case (raised e)
        from create_lookup_tables_did [OF raised(1)]
        obtain evs where e: "tr' = tr2 @ evs" "did ?p3 (Inl e) evs" by blast
        from did_raised [OF e(2), of "?p4"] e(1) show ?thesis
          unfolding raised(2) by blast
      next
        case r3: (returned x3 s3)
        obtain s3' tr3 where s3: "s3 = (s3', tr3)" by (cases s3)
        from r3(1) s3 have
          "create_lookup_tables ?P ?c db ?lookup (s2', tr2) = (Inr (), (s3', tr3))"
          by simp
        from create_lookup_tables_did [OF this]
        obtain evs3 where e3: "tr3 = tr2 @ evs3" "did ?p3 (Inr ()) evs3" by blast
        from r3(2) s3 have
          "add_hitdata_partition ?P ?c db ?base partition_date (s3', tr3) = (r, (s', tr'))"
          by simp
        from add_hitdata_partition_did [OF this]
        obtain evs4 where e4: "tr' = tr3 @ evs4" "did ?p4 r evs4" by blast
        from did_then [OF e3(2) e4(2)] e3(1) e4(1) show ?thesis by auto
      qed
      then obtain evs where e: "tr' = tr2 @ evs" "did (?p3 @ ?p4) r evs" by blast
      from did_then [OF e2(2) e(2)] e2(1) e(1) show ?thesis by auto
    qed
    then obtain evs where e: "tr' = tr1 @ evs" "did (?p2 @ ?p3 @ ?p4) r evs" by blast
    from did_then [OF e1(2) e(2)] e1(1) e(1) show ?thesis by auto
  qed
  then obtain evs where e: "tr' = tr @ evs" "did (checks_of db partition_date) r evs"
    by (auto simp only: all)
  from e db run(3) show ?thesis by auto
qed

subsection \<open>The recorded run on the empty sample catalogue\<close>

lemma create_db_traced_catalog:
  "create_db (traced glue_catalog) db (w, tr) =
     (if has_database w db then (Inr (), (w, tr @ [(GetDatabase db, Inr ())]))
      else (Inr (), (w\<lparr>databases := databases w @ [db]\<rparr>,
              tr @ [(GetDatabase db, Inl EntityNotFoundException),
                    (CreateDatabase db, Inr ())])))"
  by (simp add: create_db_def traced_simps log_call_run glue_catalog_simps)

lemma create_lookup_table_traced_catalog:
  "has_database w db \<Longrightarrow>
   create_lookup_table (traced_platform (on_catalog P)) (traced glue_catalog) db uri name (w, tr) =
     (if has_table w db name then (Inr (), (w, tr @ [(GetTable db name, Inr ())]))
      else (Inr (),
        (w\<lparr>tables := tables w @
          [((db, name),
            \<lparr> tbl_Name = name,
              tbl_StorageDescriptor =
                storage_descriptor
                  [\<lparr> col_Type = ''string'', col_Name = ''id'' \<rparr>,
                   \<lparr> col_Type = ''string'', col_Name = ''value'' \<rparr>]
                  (uri @ ''/'' @ name @ ''/''),
              tbl_PartitionKeys = [],
              tbl_TableType = ''EXTERNAL_TABLE'',
              tbl_Parameters = [],
              tbl_LastAccessTime = time_time P w \<rparr>)]\<rparr>,
         tr @ [(GetTable db name, Inl EntityNotFoundException),
               (CreateTable db
                  \<lparr> tbl_Name = name,
                    tbl_StorageDescriptor =
                      storage_descriptor
                        [\<lparr> col_Type = ''string'', col_Name = ''id'' \<rparr>,
                         \<lparr> col_Type = ''string'', col_Name = ''value'' \<rparr>]
                        (uri @ ''/'' @ name @ ''/''),
                    tbl_PartitionKeys = [],
                    tbl_TableType = ''EXTERNAL_TABLE'',
                    tbl_Parameters = [],
                    tbl_LastAccessTime = time_time P w \<rparr>, Inr ())])))"
  by (simp add: create_lookup_table_def does_table_exist_def traced_simps log_call_run
        glue_catalog_simps io_bind_def io_return_def time_time_traced on_catalog_simps)

lemma create_glue_table_traced_catalog:
  assumes "has_database w db" and "\<not> has_table w db ''hit_data''"
    and "fst (get_headers (on_catalog P) base date w) = Inr headers"
  shows "create_glue_table (traced_platform (on_catalog P)) (traced glue_catalog) db base date
      (w, tr) =
     (Inr (),
        (w\<lparr>tables := tables w @
          [((db, ''hit_data''),
            \<lparr> tbl_Name = ''hit_data'',
              tbl_StorageDescriptor =
                storage_descriptor
                  (map (\<lambda>name. \<lparr> col_Type = ''string'', col_Name = name \<rparr>) headers)
                  (base @ ''/rawtsv/hit_data/''),
              tbl_PartitionKeys = [\<lparr> col_Type = ''string'', col_Name = ''dt'' \<rparr>],
              tbl_TableType = ''EXTERNAL_TABLE'',
              tbl_Parameters = [],
              tbl_LastAccessTime = time_time P w \<rparr>)]\<rparr>,
         tr @ [(GetTable db ''hit_data'', Inl EntityNotFoundException),
               (CreateTable db
                  \<lparr> tbl_Name = ''hit_data'',
                    tbl_StorageDescriptor =
                      storage_descriptor
                        (map (\<lambda>name. \<lparr> col_Type = ''string'', col_Name = name \<rparr>) headers)
                        (base @ ''/rawtsv/hit_data/''),
                    tbl_PartitionKeys = [\<lparr> col_Type = ''string'', col_Name = ''dt'' \<rparr>],
                    tbl_TableType = ''EXTERNAL_TABLE'',
                    tbl_Parameters = [],
                    tbl_LastAccessTime = time_time P w \<rparr>, Inr ())]))"
proof -
  from assms(3) get_headers_eq [of P base date w]
  have g: "get_headers (on_catalog P) base date w = (Inr headers, w)" by simp
  from assms(1,2) show ?thesis
    by (simp add: create_glue_table_def does_table_exist_def traced_simps log_call_run
          glue_catalog_simps io_bind_def io_return_def time_time_traced on_catalog_simps
          get_headers_traced g)
qed

lemma add_hitdata_partition_traced_catalog:
  assumes "has_table w db ''hit_data''" and "\<not> has_partition w db ''hit_data'' [date]"
    and "fst (get_headers (on_catalog P) base date w) = Inr headers"
  shows "add_hitdata_partition (traced_platform (on_catalog P)) (traced glue_catalog) db base
      date (w, tr) =
     (Inr (),
        (w\<lparr>partitions := partitions w @
          [((db, ''hit_data'', [date]),
            \<lparr> part_Values = [date],
              part_StorageDescriptor =
                storage_descriptor
                  (map (\<lambda>name. \<lparr> col_Type = ''string'', col_Name = name \<rparr>) headers)
                  (base @ ''/rawtsv/hit_data/dt='' @ date @ ''/''),
              part_Parameters = [] \<rparr>)]\<rparr>,
         tr @ [(GetPartition db ''hit_data'' [date], Inl EntityNotFoundException),
               (CreatePartition db ''hit_data''
                  \<lparr> part_Values = [date],
                    part_StorageDescriptor =
                      storage_descriptor
                        (map (\<lambda>name. \<lparr> col_Type = ''string'', col_Name = name \<rparr>) headers)
                        (base @ ''/rawtsv/hit_data/dt='' @ date @ ''/''),
                    part_Parameters = [] \<rparr>, Inr ())]))"
proof -
  from assms(3) get_headers_eq [of P base date w]
  have g: "get_headers (on_catalog P) base date w = (Inr headers, w)" by simp
  from assms(1,2) show ?thesis
    by (simp add: add_hitdata_partition_def does_partition_exist_def traced_simps
          log_call_run glue_catalog_simps io_bind_def io_return_def on_catalog_simps
          get_headers_traced g)
qed

lemma sample_headers_any:
  "objects w = objects sample_world \<Longrightarrow>
     fst (get_headers (on_catalog sample_platform) ''s3://bucket/feed'' ''2024-03-01'' w)
       = Inr [''a'', ''b'', ''c'']"
  using get_headers_objects [of w sample_world sample_platform "''s3://bucket/feed''"
      "''2024-03-01''"]
  by (simp add: on_catalog_sample sample_headers_1)

lemma sample_time: "time_time sample_platform w = 1700000000"
  by (simp add: sample_platform_def)

lemma sample_traced_handler_eq:
  "handler (traced_platform sample_platform) sample_event =
     io_bind (create_db (traced glue_catalog) ''adobe'') (\<lambda>u1.
     io_bind (create_glue_table (traced_platform (on_catalog sample_platform))
                (traced glue_catalog) ''adobe'' ''s3://bucket/feed'' ''2024-03-01'') (\<lambda>u2.
     io_bind (create_lookup_tables (traced_platform (on_catalog sample_platform))
                (traced glue_catalog) ''adobe'' ''s3://bucket/lookup'') (\<lambda>u3.
     add_hitdata_partition (traced_platform (on_catalog sample_platform))
       (traced glue_catalog) ''adobe'' ''s3://bucket/feed'' ''2024-03-01'')))"
proof -
  have env: "environ (traced_platform sample_platform) ''DB_NAME'' = Some ''adobe''"
      "environ (traced_platform sample_platform) ''AWS_REGION'' = Some ''us-east-1''"
    by (simp_all add: traced_platform_simps sample_environ)
  have c: "boto3_client_glue (traced_platform sample_platform) ''us-east-1''
      = traced glue_catalog"
    by (simp add: traced_platform_simps sample_platform_def)
  show ?thesis
    by (simp only: handler_eq [OF sample_event_simps env] c sample_uris on_catalog_sample)
qed

lemma sample_full_run:
  "fst (handler (traced_platform sample_platform) sample_event (sample_world, [])) = Inr () \<and>
   summary (snd (snd (handler (traced_platform sample_platform) sample_event
      (sample_world, [])))) =
     [(1, False, Inl EntityNotFoundException), (1, True, Inr ()),
      (2, False, Inl EntityNotFoundException), (2, True, Inr ()),
      (3, False, Inl EntityNotFoundException), (3, True, Inr ()),
      (3, False, Inl EntityNotFoundException), (3, True, Inr ()),
      (3, False, Inl EntityNotFoundException), (3, True, Inr ()),
      (3, False, Inl EntityNotFoundException), (3, True, Inr ()),
      (3, False, Inl EntityNotFoundException), (3, True, Inr ()),
      (3, False, Inl EntityNotFoundException), (3, True, Inr ()),
      (3, False, Inl EntityNotFoundException), (3, True, Inr ()),
      (3, False, Inl EntityNotFoundException), (3, True, Inr ()),
      (3, False, Inl EntityNotFoundException), (3, True, Inr ()),
      (3, False, Inl EntityNotFoundException), (3, True, Inr ()),
      (3, False, Inl EntityNotFoundException), (3, True, Inr ()),
      (3, False, Inl EntityNotFoundException), (3, True, Inr ()),
      (4, False, Inl EntityNotFoundException), (4, True, Inr ())]"
  by (simp add: sample_traced_handler_eq io_bind_def create_db_traced_catalog
        create_glue_table_traced_catalog create_lookup_tables_def generic_lookup_types_def
        create_lookup_table_traced_catalog add_hitdata_partition_traced_catalog
        sample_headers_any has_database_def has_table_def has_partition_def sample_world_def
        summary_def io_return_def sample_time)

subsection \<open>The order of the steps and their gates\<close>

text \<open>
  C8. In every invocation of the handler the calls to the Data Catalog come in the order of
  the four steps: database, base table, lookup tables, partition. The existence checks of
  a run are, in this order, a beginning of the list of all checks (the database, the base
  table, each of the twelve lookup tables in the order of the source, the partition of the
  date), and the whole list when the run returns. A create call is made only right after
  the existence check for the same object, and only when that check answered not-found;
  and each check that answered not-found is followed at once by the create call for the
  object it asked for (a run that ends on such a check has raised). An invocation that
  returns has been through all four steps; one that raises stops at the call that raised.
  The recorded run does to the state what the run does.
\<close>

theorem handler_steps_in_order_and_gated:
  assumes "handler (traced_platform P) event (s, []) = (r, (s', tr))"
  shows "handler P event s = (r, s') \<and>
    sorted (map (\<lambda>ev. step_of (fst ev)) tr) \<and>
    (\<forall>i < length tr. is_create (fst (tr ! i)) \<longrightarrow>
       0 < i \<and> tr ! (i - 1) = (probe_of (fst (tr ! i)), Inl EntityNotFoundException)) \<and>
    (\<forall>i < length tr. \<not> is_create (fst (tr ! i)) \<longrightarrow>
       snd (tr ! i) = Inl EntityNotFoundException \<longrightarrow>
       (if Suc i < length tr
        then is_create (fst (tr ! Suc i)) \<and> probe_of (fst (tr ! Suc i)) = fst (tr ! i)
        else r \<noteq> Inr ())) \<and>
    (\<forall>db date. environ P ''DB_NAME'' = Some db \<longrightarrow> event ''reportDate'' = Some date \<longrightarrow>
       prefix (checks tr) (checks_of db date) \<and>
       (r = Inr () \<longrightarrow> checks tr = checks_of db date)) \<and>
    (r = Inr () \<longrightarrow>
       (\<exists>db date. environ P ''DB_NAME'' = Some db \<and> event ''reportDate'' = Some date) \<and>
       (\<forall>k \<in> {1, 2, 3, 4}. \<exists>ev \<in> set tr. step_of (fst ev) = k))"
proof -
  from handler_traced [OF assms] have sf: "steps_from 1 r tr" by simp
  then have a: "sorted (map (\<lambda>ev. step_of (fst ev)) tr)" by (simp add: steps_from_def)
  from sf have g: "gated None tr" by (simp add: steps_from_def)
  have b: "0 < i \<and> tr ! (i - 1) = (probe_of (fst (tr ! i)), Inl EntityNotFoundException)"
    if "i < length tr" "is_create (fst (tr ! i))" for i
    using gated_nth [OF g that] by (cases "i = 0") simp_all
  have c: "\<exists>ev \<in> set tr. step_of (fst ev) = k" if "r = Inr ()" "k \<in> {1, 2, 3, 4}" for k
  proof -
    from that(2) have "1 \<le> k \<and> k \<le> 4" by auto
    with sf that(1) have "k \<in> set (map (\<lambda>ev. step_of (fst ev)) tr)"
      by (simp add: steps_from_def)
    then show ?thesis by auto
  qed
  from handler_did [OF assms]
  have d: "\<forall>db date. environ P ''DB_NAME'' = Some db \<longrightarrow> event ''reportDate'' = Some date \<longrightarrow>
       did (checks_of db date) r tr"
    and e: "r = Inr () \<longrightarrow>
       (\<exists>db date. environ P ''DB_NAME'' = Some db \<and> event ''reportDate'' = Some date)"
    by simp_all
  have f: "followed r tr"
  proof (cases "\<exists>db date. environ P ''DB_NAME'' = Some db \<and> event ''reportDate'' = Some date")
    case True
    with d show ?thesis by (auto simp add: did_def)
  next
    case False
    from assms have "tr = []"
    proof (cases rule: handler_cases)
      case (early e)
      then show ?thesis by simp
    next
      case (run report_base lookup_uri partition_date db region)
      with False show ?thesis by (simp add: traced_platform_simps)
    qed
    then show ?thesis by simp
  qed
  have h: "if Suc i < length tr
        then is_create (fst (tr ! Suc i)) \<and> probe_of (fst (tr ! Suc i)) = fst (tr ! i)
        else r \<noteq> Inr ()"
    if "i < length tr" "\<not> is_create (fst (tr ! i))"
      "snd (tr ! i) = Inl EntityNotFoundException" for i
    using followed_nth [OF f that] .
  have p: "prefix (checks tr) (checks_of db date) \<and>
       (r = Inr () \<longrightarrow> checks tr = checks_of db date)"
    if "environ P ''DB_NAME'' = Some db" "event ''reportDate'' = Some date" for db date
    using d that by (simp add: did_def)
  note q = handler_traced_plain [OF assms]
  from q a b h p e c show ?thesis by blast
qed

theorem handler_steps_witness:
  "fst (handler (traced_platform sample_platform) sample_event (sample_world, [])) = Inr () \<and>
   handler sample_platform sample_event sample_world
     = (Inr (),
        fst (snd (handler (traced_platform sample_platform) sample_event (sample_world, [])))) \<and>
   checks (snd (snd (handler (traced_platform sample_platform) sample_event
      (sample_world, [])))) = checks_of ''adobe'' ''2024-03-01'' \<and>
   summary (snd (snd (handler (traced_platform sample_platform) sample_event
      (sample_world, [])))) =
     [(1, False, Inl EntityNotFoundException), (1, True, Inr ()),
      (2, False, Inl EntityNotFoundException), (2, True, Inr ()),
      (3, False, Inl EntityNotFoundException), (3, True, Inr ()),
      (3, False, Inl EntityNotFoundException), (3, True, Inr ()),
      (3, False, Inl EntityNotFoundException), (3, True, Inr ()),
      (3, False, Inl EntityNotFoundException), (3, True, Inr ()),
      (3, False, Inl EntityNotFoundException), (3, True, Inr ()),
      (3, False, Inl EntityNotFoundException), (3, True, Inr ()),
      (3, False, Inl EntityNotFoundException), (3, True, Inr ()),
      (3, False, Inl EntityNotFoundException), (3, True, Inr ()),
      (3, False, Inl EntityNotFoundException), (3, True, Inr ()),
      (3, False, Inl EntityNotFoundException), (3, True, Inr ()),
      (3, False, Inl EntityNotFoundException), (3, True, Inr ()),
      (3, False, Inl EntityNotFoundException), (3, True, Inr ()),
      (4, False, Inl EntityNotFoundException), (4, True, Inr ())]"
proof -
  let ?X = "handler (traced_platform sample_platform) sample_event (sample_world, [])"
  from sample_full_run have r: "fst ?X = Inr ()" by simp
  then have h: "?X = (Inr (), (fst (snd ?X), snd (snd ?X)))" by (simp add: prod_eq_iff)
  note t = handler_steps_in_order_and_gated [OF h]
  from t have p: "handler sample_platform sample_event sample_world = (Inr (), fst (snd ?X))"
    by blast
  from t sample_environ(1) sample_event_simps(3)
  have c: "checks (snd (snd ?X)) = checks_of ''adobe'' ''2024-03-01''" by blast
  from r p c sample_full_run show ?thesis by simp
qed

end
